theory Spec2Isabelle
  imports Complex_Main "HOL-Library.Char_ord" "HOL-Library.List_Lexorder"
begin

section \<open>Strings and JSON values\<close>

text \<open>
  JavaScript strings are modelled as \<open>string\<close> (a list of 8-bit characters). The model
  is exact on ASCII text; a character beyond ASCII is carried as its UTF-8 bytes, which
  are neither white space nor letters for the functions below.
\<close>

definition is_space :: "char \<Rightarrow> bool" where
  \<comment> \<open>the ASCII members of the class \<open>\s\<close>, which is also what \<open>String.prototype.trim\<close> strips\<close>
  "is_space c = (c = CHR 0x09 \<or> c = CHR 0x0A \<or> c = CHR 0x0B \<or> c = CHR 0x0C
                 \<or> c = CHR 0x0D \<or> c = CHR '' '')"

definition trim :: "string \<Rightarrow> string" where
  "trim s = rev (dropWhile is_space (rev (dropWhile is_space s)))"

definition lower_char :: "char \<Rightarrow> char" where
  "lower_char c = (if CHR ''A'' \<le> c \<and> c \<le> CHR ''Z'' then char_of (of_char c + (32::nat)) else c)"

definition toLowerCase :: "string \<Rightarrow> string" where
  "toLowerCase s = map lower_char s"

subsection \<open>JSON\<close>

text \<open>
  A JSON value as \<open>JSON.parse\<close> and the database's Json columns deliver it. A number is
  a rational (the finite doubles a JSON text can denote that matter here); an object is
  the list of its bindings, read with \<open>map_of\<close>. Reading a property of anything that is
  not an object gives \<open>undefined\<close>, the value \<open>None\<close>.
\<close>

datatype json =
    JNull
  | JBool bool
  | JNum rat
  | JStr string
  | JArr "json list"
  | JObj "(string \<times> json) list"

fun getProp :: "json \<Rightarrow> string \<Rightarrow> json option" where
  "getProp (JObj kvs) k = map_of kvs k"
| "getProp _ k = None"

subsection \<open>Regular expressions\<close>

text \<open>
  The regular expressions of the source use literals, the classes \<open>\s\<close>, \<open>\d\<close>, \<open>\w\<close> and
  \<open>[^\s@]\<close>, the quantifiers \<open>*\<close> and \<open>+\<close> on a class, \<open>?\<close>, alternation and one capture
  group. \<open>matchAt\<close> lists the ways an expression matches a prefix of the input, in the
  order in which a backtracking matcher tries them (greedy quantifiers: longest first); a
  state is the pair of the capture so far and the input that is left.
\<close>

datatype cclass = Space | Digit | Word | NotSpaceAt

datatype re =
    Lit string
  | Many cclass
  | Many1 cclass
  | Opt re
  | Seq re re
  | Alt re re
  | Grp re

fun in_class :: "cclass \<Rightarrow> char \<Rightarrow> bool" where
  "in_class Space c = is_space c"
| "in_class Digit c = (CHR ''0'' \<le> c \<and> c \<le> CHR ''9'')"
| "in_class Word c = ((CHR ''a'' \<le> c \<and> c \<le> CHR ''z'') \<or> (CHR ''A'' \<le> c \<and> c \<le> CHR ''Z'')
                       \<or> (CHR ''0'' \<le> c \<and> c \<le> CHR ''9'') \<or> c = CHR ''_'')"
| "in_class NotSpaceAt c = (\<not> is_space c \<and> c \<noteq> CHR ''@'')"

fun runs :: "cclass \<Rightarrow> string \<Rightarrow> string list" where
  "runs k [] = [[]]"
| "runs k (c # cs) = (if in_class k c then runs k cs @ [c # cs] else [c # cs])"

fun matchAt :: "re \<Rightarrow> string option \<times> string \<Rightarrow> (string option \<times> string) list" where
  "matchAt (Lit l) (g, s) = (if take (length l) s = l then [(g, drop (length l) s)] else [])"
| "matchAt (Many k) (g, s) = map (Pair g) (runs k s)"
| "matchAt (Many1 k) (g, s) =
     (case s of [] \<Rightarrow> [] | c # cs \<Rightarrow> if in_class k c then map (Pair g) (runs k cs) else [])"
| "matchAt (Opt r) (g, s) = matchAt r (g, s) @ [(g, s)]"
| "matchAt (Seq a b) (g, s) = concat (map (matchAt b) (matchAt a (g, s)))"
| "matchAt (Alt a b) (g, s) = matchAt a (g, s) @ matchAt b (g, s)"
| "matchAt (Grp r) (g, s) =
     map (\<lambda>(g', s'). (Some (take (length s - length s') s), s')) (matchAt r (g, s))"

fun search :: "re \<Rightarrow> string \<Rightarrow> (string option \<times> string) option" where
  \<comment> \<open>\<open>text.match(re)\<close>: the first match at the leftmost position that has one\<close>
  "search r [] = (case matchAt r (None, []) of [] \<Rightarrow> None | m # _ \<Rightarrow> Some m)"
| "search r (c # cs) =
     (case matchAt r (None, c # cs) of [] \<Rightarrow> search r cs | m # _ \<Rightarrow> Some m)"


definition capture :: "re \<Rightarrow> string \<Rightarrow> string option" where
  \<comment> \<open>group 1 of \<open>text.match(re)\<close>, for an expression whose group always takes part\<close>
  "capture r s = (case search r s of None \<Rightarrow> None | Some (g, rest) \<Rightarrow> g)"

definition test_anchored :: "re \<Rightarrow> string \<Rightarrow> bool" where
  \<comment> \<open>\<open>/^r$/.test(s)\<close>\<close>
  "test_anchored r s = list_ex (\<lambda>(g, rest). rest = []) (matchAt r (None, s))"

fun seqs :: "re list \<Rightarrow> re" where
  "seqs [] = Lit []"
| "seqs [r] = r"
| "seqs (r # rs) = Seq r (seqs rs)"



section \<open>Utility functions (lib/utils.ts)\<close>

definition normalizeEmail :: "string \<Rightarrow> string" where
  "normalizeEmail email = toLowerCase (trim email)"

definition emailRegex :: re where
  "emailRegex = seqs [Many1 NotSpaceAt, Lit ''@'', Many1 NotSpaceAt, Lit ''.'', Many1 NotSpaceAt]"

definition isValidEmail :: "string \<Rightarrow> bool" where
  "isValidEmail email = test_anchored emailRegex email"

section \<open>Segment definitions and their validation (lib/segments.ts)\<close>

datatype SegmentDefinition =
    EventTypeInLastDays (eventType: string) (days: int)
  | EventPropertyEquals (eventType: string) (path: string) (propValue: string) (days: int)
  | EventCountGteInLastDays (eventType: string) (days: int) (minCount: int)

definition nonempty_string :: "json option \<Rightarrow> bool" where
  \<comment> \<open>\<open>typeof x === "string" && x.trim() !== ""\<close>\<close>
  "nonempty_string x = (case x of Some (JStr s) \<Rightarrow> trim s \<noteq> [] | _ \<Rightarrow> False)"

definition is_string :: "json option \<Rightarrow> bool" where
  \<comment> \<open>\<open>typeof x === "string"\<close>\<close>
  "is_string x = (case x of Some (JStr s) \<Rightarrow> True | _ \<Rightarrow> False)"

definition positive_integer :: "json option \<Rightarrow> bool" where
  \<comment> \<open>\<open>typeof x === "number" && Number.isInteger(x) && x > 0\<close>\<close>
  "positive_integer x = (case x of Some (JNum n) \<Rightarrow> of_int \<lfloor>n\<rfloor> = n \<and> 0 < n | _ \<Rightarrow> False)"

definition str_of :: "json option \<Rightarrow> string" where
  "str_of x = (case x of Some (JStr s) \<Rightarrow> s | _ \<Rightarrow> [])"

definition int_of :: "json option \<Rightarrow> int" where
  "int_of x = (case x of Some (JNum n) \<Rightarrow> \<lfloor>n\<rfloor> | _ \<Rightarrow> 0)"

definition validateEventTypeInLastDays :: "json \<Rightarrow> string + SegmentDefinition" where
  "validateEventTypeInLastDays d =
    (if \<not> nonempty_string (getProp d ''eventType'') then
       Inl ''eventType must be a non-empty string''
     else if \<not> positive_integer (getProp d ''days'') then
       Inl ''days must be a positive integer''
     else Inr (EventTypeInLastDays (trim (str_of (getProp d ''eventType'')))
                                   (int_of (getProp d ''days''))))"

definition validateEventPropertyEquals :: "json \<Rightarrow> string + SegmentDefinition" where
  "validateEventPropertyEquals d =
    (if \<not> nonempty_string (getProp d ''eventType'') then
       Inl ''eventType must be a non-empty string''
     else if \<not> nonempty_string (getProp d ''path'') then
       Inl ''path must be a non-empty string''
     else if \<not> is_string (getProp d ''value'') then
       Inl ''value must be a string''
     else if \<not> positive_integer (getProp d ''days'') then
       Inl ''days must be a positive integer''
     else Inr (EventPropertyEquals (trim (str_of (getProp d ''eventType'')))
                                   (trim (str_of (getProp d ''path'')))
                                   (str_of (getProp d ''value''))
                                   (int_of (getProp d ''days''))))"

definition validateEventCountGteInLastDays :: "json \<Rightarrow> string + SegmentDefinition" where
  "validateEventCountGteInLastDays d =
    (if \<not> nonempty_string (getProp d ''eventType'') then
       Inl ''eventType must be a non-empty string''
     else if \<not> positive_integer (getProp d ''days'') then
       Inl ''days must be a positive integer''
     else if \<not> positive_integer (getProp d ''minCount'') then
       Inl ''minCount must be a positive integer''
     else Inr (EventCountGteInLastDays (trim (str_of (getProp d ''eventType'')))
                                       (int_of (getProp d ''days''))
                                       (int_of (getProp d ''minCount''))))"

fun validateSegmentDefinition :: "json \<Rightarrow> string + SegmentDefinition" where
  "validateSegmentDefinition (JObj kvs) =
    (case map_of kvs ''kind'' of
       Some (JStr kind) \<Rightarrow>
         if kind = ''event_type_in_last_days'' then validateEventTypeInLastDays (JObj kvs)
         else if kind = ''event_property_equals'' then validateEventPropertyEquals (JObj kvs)
         else if kind = ''event_count_gte_in_last_days''
           then validateEventCountGteInLastDays (JObj kvs)
         else Inl (''Unknown definition kind: '' @ [CHR 0x27] @ kind @ [CHR 0x27])
     | _ \<Rightarrow> Inl ''Definition must have a 'kind' field'')"
| "validateSegmentDefinition _ = Inl ''Definition must be a JSON object''"

definition no_outer_space :: "string \<Rightarrow> bool" where
  \<comment> \<open>a non-empty string that neither starts nor ends with white space\<close>
  "no_outer_space s = (s \<noteq> [] \<and> \<not> is_space (hd s) \<and> \<not> is_space (last s))"

definition padded_value_definition :: json where
  "padded_value_definition =
     JObj [(''kind'', JStr ''event_property_equals''), (''eventType'', JStr '' page_view''),
           (''path'', JStr ''path ''), (''value'', JStr '' /pricing ''), (''days'', JNum 7)]"

section \<open>Segment-from-prompt mock provider (lib/smartGenerate/mock.ts)\<close>















section \<open>The database\<close>

text \<open>
  The tables the routes read and write through the ORM, each as the list of its rows in
  insertion order. Row identifiers (UUIDs chosen by the database) are natural numbers
  drawn from the counter \<open>nextId\<close>; timestamps are milliseconds. Columns that no
  modelled route reads (names, descriptions, creation times) are left out. A new
  \<open>EmailDraft\<close> gets the status \<open>generated\<close> when the row is created without one.
\<close>

type_synonym ident = nat

datatype CampaignStatus =
  CampaignDraft | CampaignDrafted | CampaignSending | CampaignSent | CampaignFailed

datatype DraftStatus = Generated | Approved | Rejected

datatype SendStatus = Queued | SendSent | SendFailed

record Customer =
  customer_id :: ident
  customer_email :: string

record Event =
  event_id :: ident
  event_customerId :: ident
  event_type :: string
  event_properties :: json
  event_occurredAt :: int
  event_idempotencyKey :: "string option"

record Campaign =
  campaign_id :: ident
  campaign_segmentSnapshot :: json
  campaign_status :: CampaignStatus

record EmailDraft =
  draft_id :: ident
  draft_campaignId :: ident
  draft_customerId :: ident
  draft_subject :: string
  draft_body :: string
  draft_recommendedSku :: "string option"
  draft_status :: DraftStatus

record Send =
  send_id :: ident
  send_campaignId :: ident
  send_customerId :: ident
  send_status :: SendStatus
  send_sentAt :: "int option"
  send_error :: "string option"

record Db =
  customerTable :: "Customer list"
  eventTable :: "Event list"
  campaignTable :: "Campaign list"
  draftTable :: "EmailDraft list"
  sendTable :: "Send list"
  nextId :: ident

datatype 'a response = HttpOk nat 'a | HttpError nat string

definition setCampaignStatus :: "ident \<Rightarrow> CampaignStatus \<Rightarrow> Db \<Rightarrow> Db" where
  \<comment> \<open>\<open>prisma.campaign.update({ where: { id }, data: { status } })\<close>\<close>
  "setCampaignStatus cid st db =
     db\<lparr> campaignTable :=
           map (\<lambda>c. if campaign_id c = cid then c\<lparr> campaign_status := st \<rparr> else c)
               (campaignTable db) \<rparr>"

definition campaignStatus :: "ident \<Rightarrow> Db \<Rightarrow> CampaignStatus option" where
  "campaignStatus cid db =
     map_option campaign_status (find (\<lambda>c. campaign_id c = cid) (campaignTable db))"

section \<open>Segment evaluation (lib/segmentPreview.ts)\<close>

record PreviewResult =
  count :: nat
  customers :: "Customer list"

definition PREVIEW_LIMIT :: nat where
  "PREVIEW_LIMIT = 50"

definition DAY_MS :: int where
  "DAY_MS = 24 * 60 * 60 * 1000"

definition fetchCustomers :: "Db \<Rightarrow> ident list \<Rightarrow> PreviewResult" where
  "fetchCustomers db customerIds =
    (if length customerIds = 0 then \<lparr> count = 0, customers = [] \<rparr>
     else \<lparr> count = length customerIds,
            customers = take PREVIEW_LIMIT
                          (sort_key customer_email
                             (filter (\<lambda>c. customer_id c \<in> set customerIds)
                                     (customerTable db))) \<rparr>)"

definition evaluateEventTypeInLastDays :: "Db \<Rightarrow> string \<Rightarrow> int \<Rightarrow> PreviewResult" where
  "evaluateEventTypeInLastDays db t cutoff =
    (let evs = filter (\<lambda>e. event_type e = t \<and> cutoff \<le> event_occurredAt e) (eventTable db);
         customerIds = remdups (map event_customerId evs)
     in fetchCustomers db customerIds)"

definition evaluateEventPropertyEquals ::
  "Db \<Rightarrow> string \<Rightarrow> string \<Rightarrow> string \<Rightarrow> int \<Rightarrow> PreviewResult" where
  "evaluateEventPropertyEquals db t p v cutoff =
    (let evs = filter (\<lambda>e. event_type e = t \<and> cutoff \<le> event_occurredAt e
                           \<and> getProp (event_properties e) p = Some (JStr v))
                      (eventTable db);
         customerIds = remdups (map event_customerId evs)
     in fetchCustomers db customerIds)"

definition evaluateEventCountGte :: "Db \<Rightarrow> string \<Rightarrow> int \<Rightarrow> int \<Rightarrow> PreviewResult" where
  "evaluateEventCountGte db t cutoff n =
    (let evs = filter (\<lambda>e. event_type e = t \<and> cutoff \<le> event_occurredAt e) (eventTable db);
         groups = filter (\<lambda>c. n \<le> int (count_list (map event_customerId evs) c))
                         (remdups (map event_customerId evs))
     in fetchCustomers db groups)"

definition evaluateSegment :: "int \<Rightarrow> SegmentDefinition \<Rightarrow> Db \<Rightarrow> PreviewResult" where
  \<comment> \<open>\<open>now\<close> is the clock; the cutoff lies \<open>days\<close> whole days before it\<close>
  "evaluateSegment now definition db =
    (let cutoff = now - days definition * DAY_MS
     in case definition of
          EventTypeInLastDays t d \<Rightarrow> evaluateEventTypeInLastDays db t cutoff
        | EventPropertyEquals t p v d \<Rightarrow> evaluateEventPropertyEquals db t p v cutoff
        | EventCountGteInLastDays t d n \<Rightarrow> evaluateEventCountGte db t cutoff n)"

text \<open>
  The matching customers as the specification words them, for comparison with the
  queries above: a customer matches when the events of the given type at or after the
  cutoff (and, for \<open>event_property_equals\<close>, with the property at \<open>path\<close> equal to the string
  \<open>value\<close>) that belong to the customer number at least one, or at least \<open>minCount\<close>.
\<close>

definition event_matches :: "int \<Rightarrow> SegmentDefinition \<Rightarrow> Event \<Rightarrow> bool" where
  "event_matches now definition e =
    (event_type e = eventType definition
     \<and> now - days definition * DAY_MS \<le> event_occurredAt e
     \<and> (case definition of
          EventPropertyEquals t p v d \<Rightarrow> getProp (event_properties e) p = Some (JStr v)
        | _ \<Rightarrow> True))"

definition matching_events :: "int \<Rightarrow> SegmentDefinition \<Rightarrow> Db \<Rightarrow> ident \<Rightarrow> Event list" where
  "matching_events now definition db c =
     filter (\<lambda>e. event_customerId e = c \<and> event_matches now definition e) (eventTable db)"

definition customer_matches :: "int \<Rightarrow> SegmentDefinition \<Rightarrow> Db \<Rightarrow> ident \<Rightarrow> bool" where
  "customer_matches now definition db c =
    (case definition of
       EventCountGteInLastDays t d n \<Rightarrow>
         matching_events now definition db c \<noteq> []
         \<and> n \<le> int (length (matching_events now definition db c))
     | _ \<Rightarrow> matching_events now definition db c \<noteq> [])"

definition matching_ids :: "int \<Rightarrow> SegmentDefinition \<Rightarrow> Db \<Rightarrow> ident set" where
  "matching_ids now definition db =
     {c \<in> event_customerId ` set (eventTable db). customer_matches now definition db c}"

section \<open>Smart-Draft mock provider (lib/smartDraft/mock.ts)\<close>

record DraftInput =
  customerEmail :: string
  recentEventType :: "string option"
  recommendedSku :: "string option"

record DraftOutput =
  subject :: string
  body :: string

text \<open>
  \<open>recentEventType\<close> may be undefined and \<open>recommendedSku\<close> may be undefined or null;
  all of these are falsy and are the value \<open>None\<close> here. A string is truthy when it is
  not empty.
\<close>

definition truthy_str :: "string option \<Rightarrow> bool" where
  "truthy_str x = (case x of None \<Rightarrow> False | Some s \<Rightarrow> s \<noteq> [])"

definition formatEventType :: "string \<Rightarrow> string" where
  "formatEventType t = map (\<lambda>c. if c = CHR ''_'' then CHR '' '' else c) t"

definition nl :: string where
  "nl = [CHR 0x0A]"

definition arrow :: string where
  \<comment> \<open>U+2192 in UTF-8\<close>
  "arrow = [CHR 0xE2, CHR 0x86, CHR 0x92]"

definition MockSmartDraftProvider_generate :: "DraftInput \<Rightarrow> DraftOutput" where
  "MockSmartDraftProvider_generate inp =
    (let firstName = takeWhile (\<lambda>c. c \<noteq> CHR ''@'') (customerEmail inp);
         activity = (if truthy_str (recentEventType inp)
                     then formatEventType (the (recentEventType inp))
                     else ''recently visited us'');
         sku = (case recommendedSku inp of None \<Rightarrow> [] | Some s \<Rightarrow> s)
     in if truthy_str (recommendedSku inp) \<and> truthy_str (recentEventType inp) then
          \<lparr> subject = ''Still thinking about '' @ sku @ ''?'',
            body = ''Hi '' @ firstName @ '','' @ nl @ nl @ ''We noticed you '' @ activity
                   @ '' and showed interest in '' @ sku @ ''. Don't let it get away!''
                   @ nl @ nl @ ''Shop now '' @ arrow \<rparr>
        else if truthy_str (recommendedSku inp) then
          \<lparr> subject = ''Still thinking about '' @ sku @ ''?'',
            body = ''Hi '' @ firstName @ '','' @ nl @ nl @ ''We think '' @ sku
                   @ '' would be perfect for you. Grab it before it's gone!''
                   @ nl @ nl @ ''Shop now '' @ arrow \<rparr>
        else if truthy_str (recentEventType inp) then
          \<lparr> subject = ''We have something special for you'',
            body = ''Hi '' @ firstName @ '','' @ nl @ nl @ ''Thank you for '' @ activity
                   @ ''. We'd love to help you find what you're looking for.''
                   @ nl @ nl @ ''Explore our latest '' @ arrow \<rparr>
        else
          \<lparr> subject = ''We have something special for you'',
            body = ''Hi '' @ firstName @ '','' @ nl @ nl
                   @ ''We'd love to reconnect and share our latest offerings with you.''
                   @ nl @ nl @ ''Explore now '' @ arrow \<rparr>)"

section \<open>Campaign draft generation\<close>

subsection \<open>lib/campaignUtils.ts\<close>

fun extractRecommendedSku :: "Event list \<Rightarrow> string option" where
  "extractRecommendedSku [] = None"
| "extractRecommendedSku (e # es) =
    (case getProp (event_properties e) ''sku'' of
       Some (JStr sku) \<Rightarrow> if trim sku \<noteq> [] then Some (trim sku) else extractRecommendedSku es
     | _ \<Rightarrow> extractRecommendedSku es)"

definition extractRecentEventType :: "Event list \<Rightarrow> string option" where
  "extractRecentEventType evs = (case evs of [] \<Rightarrow> None | e # _ \<Rightarrow> Some (event_type e))"

subsection \<open>POST /api/campaigns/[id]/generate-drafts\<close>

definition THIRTY_DAYS_MS :: int where
  "THIRTY_DAYS_MS = 30 * 24 * 60 * 60 * 1000"

definition smartGenerateDraft :: "DraftInput \<Rightarrow> DraftOutput" where
  \<comment> \<open>the provider in place unless another one is installed\<close>
  "smartGenerateDraft inp = MockSmartDraftProvider_generate inp"

definition groupByCustomer :: "Event list \<Rightarrow> ident \<Rightarrow> Event list option" where
  "groupByCustomer evs =
     foldl (\<lambda>m e. m(event_customerId e \<mapsto>
                      (case m (event_customerId e) of None \<Rightarrow> [] | Some l \<Rightarrow> l) @ [e]))
           Map.empty evs"

fun upsertDraft ::
  "ident \<Rightarrow> ident \<Rightarrow> ident \<Rightarrow> string \<Rightarrow> string \<Rightarrow> string option \<Rightarrow> EmailDraft list
     \<Rightarrow> EmailDraft list" where
  "upsertDraft cid cust new sub bdy sku [] =
     [\<lparr> draft_id = new, draft_campaignId = cid, draft_customerId = cust, draft_subject = sub,
        draft_body = bdy, draft_recommendedSku = sku, draft_status = Generated \<rparr>]"
| "upsertDraft cid cust new sub bdy sku (d # ds) =
     (if draft_campaignId d = cid \<and> draft_customerId d = cust
      then d\<lparr> draft_subject := sub, draft_body := bdy, draft_recommendedSku := sku \<rparr> # ds
      else d # upsertDraft cid cust new sub bdy sku ds)"

definition draftInputFor :: "(ident \<Rightarrow> Event list option) \<Rightarrow> Customer \<Rightarrow> DraftInput" where
  "draftInputFor eventsByCustomer c =
    (let evs = (case eventsByCustomer (customer_id c) of None \<Rightarrow> [] | Some l \<Rightarrow> l)
     in \<lparr> customerEmail = customer_email c,
          recentEventType = extractRecentEventType evs,
          recommendedSku = extractRecommendedSku evs \<rparr>)"

definition draftStep ::
  "ident \<Rightarrow> (ident \<Rightarrow> Event list option) \<Rightarrow> Db \<times> nat \<Rightarrow> Customer \<Rightarrow> Db \<times> nat" where
  \<comment> \<open>one turn of the loop over \<open>preview.customers\<close>\<close>
  "draftStep cid eventsByCustomer st c =
    (let db = fst st;
         inp = draftInputFor eventsByCustomer c;
         out = smartGenerateDraft inp
     in (db\<lparr> draftTable := upsertDraft cid (customer_id c) (nextId db) (subject out) (body out)
                              (recommendedSku inp) (draftTable db),
            nextId := Suc (nextId db) \<rparr>,
         Suc (snd st)))"

definition recentEventsOf :: "int \<Rightarrow> ident list \<Rightarrow> Db \<Rightarrow> Event list" where
  \<comment> \<open>the events of the given customers in the last thirty days, newest first\<close>
  "recentEventsOf now customerIds db =
     sort_key (\<lambda>e. - event_occurredAt e)
       (filter (\<lambda>e. event_customerId e \<in> set customerIds
                     \<and> now - THIRTY_DAYS_MS \<le> event_occurredAt e)
               (eventTable db))"

definition generateDrafts :: "int \<Rightarrow> ident \<Rightarrow> Db \<Rightarrow> nat response \<times> Db" where
  "generateDrafts now cid db =
    (case find (\<lambda>c. campaign_id c = cid) (campaignTable db) of
       None \<Rightarrow> (HttpError 404 ''Campaign not found'', db)
     | Some campaign \<Rightarrow>
        (case validateSegmentDefinition (campaign_segmentSnapshot campaign) of
           Inl err \<Rightarrow> (HttpError 400 (''Invalid segment snapshot: '' @ err), db)
         | Inr definition \<Rightarrow>
            (let preview = evaluateSegment now definition db;
                 customerIds = map customer_id (customers preview)
             in if length customerIds = 0 then (HttpOk 200 0, db)
                else
                  (let eventsByCustomer = groupByCustomer (recentEventsOf now customerIds db);
                       st = foldl (draftStep cid eventsByCustomer) (db, 0) (customers preview);
                       draftedCount = snd st
                   in (HttpOk 200 draftedCount,
                       if draftedCount > 0 then setCampaignStatus cid CampaignDrafted (fst st)
                       else fst st)))))"

section \<open>POST /api/campaigns/[id]/send\<close>

definition simulatedSuccess :: bool where
  "simulatedSuccess = True"

fun upsertSend ::
  "ident \<Rightarrow> ident \<Rightarrow> (Send \<Rightarrow> Send) \<Rightarrow> Send \<Rightarrow> Send list \<Rightarrow> Send list" where
  "upsertSend cid cust upd new [] = [new]"
| "upsertSend cid cust upd new (x # xs) =
     (if send_campaignId x = cid \<and> send_customerId x = cust then upd x # xs
      else x # upsertSend cid cust upd new xs)"

definition sendStep :: "int \<Rightarrow> ident \<Rightarrow> Db \<times> nat \<times> nat \<Rightarrow> EmailDraft \<Rightarrow> Db \<times> nat \<times> nat" where
  "sendStep now cid st draft =
    (let db = fst st; sentCount = fst (snd st); failedCount = snd (snd st);
         customerId = draft_customerId draft
     in if simulatedSuccess then
          (db\<lparr> sendTable :=
                 upsertSend cid customerId
                   (\<lambda>x. x\<lparr> send_status := SendSent, send_sentAt := Some now, send_error := None \<rparr>)
                   \<lparr> send_id = nextId db, send_campaignId = cid, send_customerId = customerId,
                     send_status = SendSent, send_sentAt = Some now, send_error = None \<rparr>
                   (sendTable db),
               nextId := Suc (nextId db) \<rparr>,
           Suc sentCount, failedCount)
        else
          (db\<lparr> sendTable :=
                 upsertSend cid customerId
                   (\<lambda>x. x\<lparr> send_status := SendFailed,
                           send_error := Some ''Simulated send failure'' \<rparr>)
                   \<lparr> send_id = nextId db, send_campaignId = cid, send_customerId = customerId,
                     send_status = SendFailed, send_sentAt = None,
                     send_error = Some ''Simulated send failure'' \<rparr>
                   (sendTable db),
               nextId := Suc (nextId db) \<rparr>,
           sentCount, Suc failedCount))"

definition sendCampaign :: "int \<Rightarrow> ident \<Rightarrow> Db \<Rightarrow> (nat \<times> nat) response \<times> Db" where
  "sendCampaign now cid db =
    (case find (\<lambda>c. campaign_id c = cid) (campaignTable db) of
       None \<Rightarrow> (HttpError 404 ''Campaign not found'', db)
     | Some campaign \<Rightarrow>
        (let approved = filter (\<lambda>d. draft_campaignId d = cid \<and> draft_status d = Approved)
                               (draftTable db)
         in if length approved = 0 then (HttpError 400 ''No approved drafts to send'', db)
            else
              (let st = foldl (sendStep now cid) (db, 0, 0) approved;
                   sentCount = fst (snd st); failedCount = snd (snd st);
                   newStatus = (if failedCount = 0 then CampaignSent
                                else if sentCount = 0 then CampaignFailed else CampaignSent)
               in (HttpOk 200 (sentCount, failedCount),
                   setCampaignStatus cid newStatus (fst st)))))"

section \<open>PATCH /api/campaigns/[id]/drafts/[draftId]\<close>

definition ALLOWED_STATUSES :: "string list" where
  "ALLOWED_STATUSES = [''approved'', ''rejected'']"

definition draftStatusOf :: "string \<Rightarrow> DraftStatus" where
  \<comment> \<open>the enum value an allowed status string denotes\<close>
  "draftStatusOf st = (if st = ''approved'' then Approved else Rejected)"

definition draftStatusName :: "DraftStatus \<Rightarrow> string" where
  "draftStatusName st =
     (case st of Generated \<Rightarrow> ''generated'' | Approved \<Rightarrow> ''approved'' | Rejected \<Rightarrow> ''rejected'')"

definition patchDraft :: "ident \<Rightarrow> ident \<Rightarrow> json option \<Rightarrow> Db \<Rightarrow> EmailDraft response \<times> Db" where
  \<comment> \<open>the request body is \<open>None\<close> when it is not JSON; destructuring \<open>null\<close> throws\<close>
  "patchDraft campaignId draftId reqBody db =
    (case reqBody of
       None \<Rightarrow> (HttpError 400 ''Invalid JSON body'', db)
     | Some JNull \<Rightarrow> (HttpError 500 ''Internal server error'', db)
     | Some b \<Rightarrow>
        (if \<not> (case getProp b ''status'' of
                  Some (JStr st) \<Rightarrow> st \<in> set ALLOWED_STATUSES
                | _ \<Rightarrow> False)
         then (HttpError 400 ''status must be one of: approved, rejected'', db)
         else
           (case find (\<lambda>d. draft_id d = draftId \<and> draft_campaignId d = campaignId)
                      (draftTable db) of
              None \<Rightarrow> (HttpError 404 ''Draft not found'', db)
            | Some existing \<Rightarrow>
               if draft_status existing \<noteq> Generated then
                 (HttpError 409 (''Cannot transition draft from status '' @ [CHR 0x22]
                                 @ draftStatusName (draft_status existing) @ [CHR 0x22]), db)
               else
                 (let st = draftStatusOf (str_of (getProp b ''status''))
                  in (HttpOk 200 (existing\<lparr> draft_status := st \<rparr>),
                      db\<lparr> draftTable :=
                            map (\<lambda>d. if draft_id d = draftId then d\<lparr> draft_status := st \<rparr>
                                      else d)
                                (draftTable db) \<rparr>)))))"

section \<open>POST /api/events\<close>

text \<open>
  The request is its parsed JSON body (\<open>None\<close> when \<open>request.json()\<close> throws) and the
  value of the \<open>Idempotency-Key\<close> header (\<open>None\<close> when the header is absent).
  \<open>parseDate\<close> stands for \<open>new Date(x).getTime()\<close>, with \<open>None\<close> for an invalid date, and
  \<open>now\<close> for the clock.
\<close>

record EventReply =
  created :: bool
  eventId :: ident
  customerId :: ident

record EventData =
  data_email :: string
  data_type :: string
  data_properties :: json
  data_occurredAt :: int

definition truthy :: "json option \<Rightarrow> bool" where
  "truthy x = (case x of
                 None \<Rightarrow> False
               | Some JNull \<Rightarrow> False
               | Some (JBool b) \<Rightarrow> b
               | Some (JNum n) \<Rightarrow> n \<noteq> 0
               | Some (JStr s) \<Rightarrow> s \<noteq> []
               | Some _ \<Rightarrow> True)"

definition requestEmail :: "json \<Rightarrow> json option" where
  \<comment> \<open>\<open>body.email ?? body.customer?.email\<close>\<close>
  "requestEmail b =
    (if getProp b ''email'' = None \<or> getProp b ''email'' = Some JNull then
       (case getProp b ''customer'' of
          None \<Rightarrow> None
        | Some JNull \<Rightarrow> None
        | Some c \<Rightarrow> getProp c ''email'')
     else getProp b ''email'')"

definition validateEventRequest ::
  "(json \<Rightarrow> int option) \<Rightarrow> int \<Rightarrow> json option \<Rightarrow> (nat \<times> string) + EventData" where
  \<comment> \<open>the checks of the route before it touches the database, in the source's order\<close>
  "validateEventRequest parseDate now reqBody =
    (case reqBody of
       None \<Rightarrow> Inl (500, ''Internal server error'')
     | Some JNull \<Rightarrow> Inl (500, ''Internal server error'')
     | Some b \<Rightarrow>
        (if \<not> (truthy (requestEmail b) \<and> is_string (requestEmail b)) then
           Inl (400, ''Email is required'')
         else if \<not> (truthy (getProp b ''type'') \<and> nonempty_string (getProp b ''type'')) then
           Inl (400, ''Event type is required'')
         else if \<not> isValidEmail (normalizeEmail (str_of (requestEmail b))) then
           Inl (400, ''Invalid email format'')
         else if getProp b ''properties'' \<noteq> None
                 \<and> (case getProp b ''properties'' of Some (JObj kvs) \<Rightarrow> False | _ \<Rightarrow> True) then
           Inl (400, ''Properties must be a JSON object'')
         else if truthy (getProp b ''occurredAt'')
                 \<and> parseDate (the (getProp b ''occurredAt'')) = None then
           Inl (400, ''Invalid occurredAt date format'')
         else
           Inr \<lparr> data_email = normalizeEmail (str_of (requestEmail b)),
                 data_type = trim (str_of (getProp b ''type'')),
                 data_properties = (case getProp b ''properties'' of
                                      None \<Rightarrow> JObj [] | Some ps \<Rightarrow> ps),
                 data_occurredAt = (if truthy (getProp b ''occurredAt'')
                                    then the (parseDate (the (getProp b ''occurredAt'')))
                                    else now) \<rparr>))"

definition headerKey :: "string option \<Rightarrow> string option" where
  \<comment> \<open>\<open>request.headers.get("Idempotency-Key") || null\<close>\<close>
  "headerKey h = (case h of None \<Rightarrow> None | Some k \<Rightarrow> if k = [] then None else Some k)"

definition upsertCustomer :: "string \<Rightarrow> Db \<Rightarrow> Customer \<times> Db" where
  \<comment> \<open>\<open>prisma.customer.upsert({ where: { email }, update: {}, create: { email } })\<close>\<close>
  "upsertCustomer email db =
    (case find (\<lambda>c. customer_email c = email) (customerTable db) of
       Some c \<Rightarrow> (c, db)
     | None \<Rightarrow>
        (let c = \<lparr> customer_id = nextId db, customer_email = email \<rparr>
         in (c, db\<lparr> customerTable := customerTable db @ [c], nextId := Suc (nextId db) \<rparr>)))"

definition postEvent ::
  "(json \<Rightarrow> int option) \<Rightarrow> int \<Rightarrow> json option \<Rightarrow> string option \<Rightarrow> Db
     \<Rightarrow> EventReply response \<times> Db" where
  "postEvent parseDate now reqBody header db =
    (case validateEventRequest parseDate now reqBody of
       Inl err \<Rightarrow> (HttpError (fst err) (snd err), db)
     | Inr dat \<Rightarrow>
        (let idempotencyKey = headerKey header;
             cu = upsertCustomer (data_email dat) db;
             customer = fst cu; db1 = snd cu;
             existingEvent =
               (if idempotencyKey \<noteq> None then
                  find (\<lambda>e. event_customerId e = customer_id customer
                             \<and> event_idempotencyKey e = idempotencyKey)
                       (eventTable db1)
                else None)
         in case existingEvent of
              Some ev \<Rightarrow>
                (HttpOk 200 \<lparr> created = False, eventId = event_id ev,
                              customerId = customer_id customer \<rparr>, db1)
            | None \<Rightarrow>
                (let ev = \<lparr> event_id = nextId db1, event_customerId = customer_id customer,
                            event_type = data_type dat, event_properties = data_properties dat,
                            event_occurredAt = data_occurredAt dat,
                            event_idempotencyKey = idempotencyKey \<rparr>
                 in (HttpOk 201 \<lparr> created = True, eventId = event_id ev,
                                  customerId = customer_id customer \<rparr>,
                     db1\<lparr> eventTable := eventTable db1 @ [ev],
                          nextId := Suc (nextId db1) \<rparr>))))"

section \<open>Table constraints\<close>

definition draft_key :: "EmailDraft \<Rightarrow> ident \<times> ident" where
  "draft_key d = (draft_campaignId d, draft_customerId d)"

definition drafts_unique :: "Db \<Rightarrow> bool" where
  \<comment> \<open>\<open>UNIQUE(campaignId, customerId)\<close> on the drafts\<close>
  "drafts_unique db = distinct (map draft_key (draftTable db))"

definition draftsOf :: "ident \<Rightarrow> ident \<Rightarrow> Db \<Rightarrow> EmailDraft list" where
  "draftsOf cid cust db = filter (\<lambda>d. draft_key d = (cid, cust)) (draftTable db)"

definition eventsWithKey :: "ident \<Rightarrow> string \<Rightarrow> Db \<Rightarrow> Event list" where
  "eventsWithKey cust k db =
     filter (\<lambda>e. event_customerId e = cust \<and> event_idempotencyKey e = Some k) (eventTable db)"

definition events_unique :: "Db \<Rightarrow> bool" where
  \<comment> \<open>\<open>UNIQUE(customerId, idempotencyKey)\<close> on the events; rows without a key never clash\<close>
  "events_unique db =
     distinct (map (\<lambda>e. (event_customerId e, event_idempotencyKey e))
                   (filter (\<lambda>e. event_idempotencyKey e \<noteq> None) (eventTable db)))"

section \<open>What a run of the draft generator does\<close>

definition processedCustomers :: "int \<Rightarrow> ident \<Rightarrow> Db \<Rightarrow> Customer list" where
  \<comment> \<open>the customers the loop of the route runs over: \<open>preview.customers\<close>\<close>
  "processedCustomers now cid db =
    (case find (\<lambda>c. campaign_id c = cid) (campaignTable db) of
       None \<Rightarrow> []
     | Some campaign \<Rightarrow>
        (case validateSegmentDefinition (campaign_segmentSnapshot campaign) of
           Inl err \<Rightarrow> []
         | Inr definition \<Rightarrow> customers (evaluateSegment now definition db)))"

definition recentEventsOfCustomer :: "int \<Rightarrow> Db \<Rightarrow> ident \<Rightarrow> Event list" where
  \<comment> \<open>one customer's events of the last thirty days, newest first\<close>
  "recentEventsOfCustomer now db cust =
     sort_key (\<lambda>e. - event_occurredAt e)
       (filter (\<lambda>e. event_customerId e = cust \<and> now - THIRTY_DAYS_MS \<le> event_occurredAt e)
               (eventTable db))"

definition freshDraftInput :: "int \<Rightarrow> Db \<Rightarrow> Customer \<Rightarrow> DraftInput" where
  "freshDraftInput now db c =
     \<lparr> customerEmail = customer_email c,
       recentEventType = extractRecentEventType (recentEventsOfCustomer now db (customer_id c)),
       recommendedSku = extractRecommendedSku (recentEventsOfCustomer now db (customer_id c)) \<rparr>"

definition withFreshCopy :: "DraftInput \<Rightarrow> EmailDraft \<Rightarrow> EmailDraft" where
  \<comment> \<open>the \<open>update\<close> side of the upsert: subject, body and SKU replaced, the rest kept\<close>
  "withFreshCopy inp d =
     d\<lparr> draft_subject := subject (smartGenerateDraft inp),
        draft_body := body (smartGenerateDraft inp),
        draft_recommendedSku := recommendedSku inp \<rparr>"

definition carriesCopy :: "DraftInput \<Rightarrow> EmailDraft \<Rightarrow> bool" where
  \<comment> \<open>the draft's subject, body and SKU are the ones generated from the input\<close>
  "carriesCopy inp d =
    (draft_subject d = subject (smartGenerateDraft inp)
     \<and> draft_body d = body (smartGenerateDraft inp)
     \<and> draft_recommendedSku d = recommendedSku inp)"

definition upserted :: "DraftInput \<Rightarrow> EmailDraft list \<Rightarrow> EmailDraft list \<Rightarrow> bool" where
  \<comment> \<open>the drafts under one (campaign, customer) key before and after the customer is
      processed: a missing draft is created as \<open>generated\<close>, an existing one is rewritten
      in place, and either way exactly one remains\<close>
  "upserted inp before after =
    ((\<exists>d. after = [d] \<and> carriesCopy inp d)
     \<and> (before = [] \<longrightarrow> draft_status (hd after) = Generated)
     \<and> (\<forall>old. before = [old] \<longrightarrow> after = [withFreshCopy inp old]))"

section \<open>Example data\<close>

definition alice :: Customer where
  "alice = \<lparr> customer_id = 1, customer_email = ''alice@example.com'' \<rparr>"

definition page_view_30 :: json where
  "page_view_30 = JObj [(''kind'', JStr ''event_type_in_last_days''),
                        (''eventType'', JStr ''page_view''), (''days'', JNum 30)]"

definition example_db :: Db where
  "example_db =
    \<lparr> customerTable = [alice],
      eventTable = [\<lparr> event_id = 2, event_customerId = 1, event_type = ''page_view'',
                      event_properties = JObj [(''sku'', JStr ''WIDGET-42'')],
                      event_occurredAt = 1000, event_idempotencyKey = None \<rparr>],
      campaignTable = [\<lparr> campaign_id = 3, campaign_segmentSnapshot = page_view_30,
                         campaign_status = CampaignDraft \<rparr>],
      draftTable = [], sendTable = [], nextId = 4 \<rparr>"

definition approve :: json where
  "approve = JObj [(''status'', JStr ''approved'')]"

definition unknown_status :: json where
  "unknown_status = JObj [(''status'', JStr ''sent'')]"

definition drafted_db :: Db where
  \<comment> \<open>drafts generated once: one draft, with identifier 4, for alice\<close>
  "drafted_db = snd (generateDrafts 2000 3 example_db)"

definition newer_event :: Event where
  "newer_event =
     \<lparr> event_id = 9, event_customerId = 1, event_type = ''purchase'',
       event_properties = JObj [(''sku'', JStr '' GADGET-7 '')],
       event_occurredAt = 2500, event_idempotencyKey = None \<rparr>"

definition later_db :: Db where
  \<comment> \<open>after the first run, alice has bought something else\<close>
  "later_db = drafted_db\<lparr> eventTable := eventTable drafted_db @ [newer_event], nextId := 10 \<rparr>"

definition approved_db :: Db where
  "approved_db = snd (patchDraft 3 4 (Some approve) drafted_db)"

definition approved_draft :: EmailDraft where
  "approved_draft = hd (draftTable approved_db)"

definition sent_db :: Db where
  "sent_db = snd (sendCampaign 2500 3 approved_db)"

definition millis :: "json \<Rightarrow> int option" where
  \<comment> \<open>a date parser for the examples: a number is a time in milliseconds\<close>
  "millis j = (case j of JNum n \<Rightarrow> Some \<lfloor>n\<rfloor> | _ \<Rightarrow> None)"

definition page_view_request :: json where
  \<comment> \<open>the event that \<open>example_db\<close> already holds for alice\<close>
  "page_view_request =
     JObj [(''email'', JStr '' Alice@Example.com''), (''type'', JStr ''page_view''),
           (''properties'', JObj [(''sku'', JStr ''WIDGET-42'')]), (''occurredAt'', JNum 1000)]"

definition page_view_data :: EventData where
  "page_view_data =
     \<lparr> data_email = ''alice@example.com'', data_type = ''page_view'',
       data_properties = JObj [(''sku'', JStr ''WIDGET-42'')], data_occurredAt = 1000 \<rparr>"

definition many_customers :: "Customer list" where
  "many_customers =
     map (\<lambda>i. \<lparr> customer_id = i,
                customer_email = [char_of (97 + i div 10), char_of (97 + i mod 10)]
                                 @ ''@example.com'' \<rparr>)
         [0..<51]"

definition many_events :: "Event list" where
  "many_events =
     map (\<lambda>i. \<lparr> event_id = 100 + i, event_customerId = i, event_type = ''page_view'',
                event_properties = JObj [], event_occurredAt = 1000,
                event_idempotencyKey = None \<rparr>)
         [0..<51]"

definition crowded_db :: Db where
  "crowded_db =
    \<lparr> customerTable = many_customers, eventTable = many_events,
      campaignTable = [\<lparr> campaign_id = 200, campaign_segmentSnapshot = page_view_30,
                         campaign_status = CampaignDraft \<rparr>],
      draftTable = [], sendTable = [], nextId = 300 \<rparr>"





section \<open>Properties\<close>

subsection \<open>The Smart-Draft mock\<close>

text \<open>
  Claim C10. Two inputs of the mock email-draft provider that agree on
  \<open>recommendedSku\<close> get the same subject line, whatever their \<open>customerEmail\<close> and
  \<open>recentEventType\<close> are; the subject is "Still thinking about {sku}?" exactly when
  \<open>recommendedSku\<close> is a non-empty string and "We have something special for you" otherwise.
\<close>

theorem mock_draft_subject_depends_on_sku_only:
  "(recommendedSku i1 = recommendedSku i2 \<longrightarrow>
      subject (MockSmartDraftProvider_generate i1) = subject (MockSmartDraftProvider_generate i2))
   \<and> (truthy_str (recommendedSku i) \<longrightarrow>
        subject (MockSmartDraftProvider_generate i)
          = ''Still thinking about '' @ the (recommendedSku i) @ ''?'')
   \<and> (\<not> truthy_str (recommendedSku i) \<longrightarrow>
        subject (MockSmartDraftProvider_generate i) = ''We have something special for you'')
   \<and> (subject (MockSmartDraftProvider_generate i) = ''Still thinking about '' @ s @ ''?''
        \<longrightarrow> recommendedSku i = Some s \<and> s \<noteq> [])"
  by (auto simp: MockSmartDraftProvider_generate_def truthy_str_def Let_def
           split: option.splits)

theorem mock_draft_subject_depends_on_sku_only_witness:
  "recommendedSku \<lparr> customerEmail = ''alice@example.com'', recentEventType = Some ''added_to_cart'',
                    recommendedSku = Some ''WIDGET-42'' \<rparr>
     = recommendedSku \<lparr> customerEmail = ''bob@example.org'', recentEventType = None,
                        recommendedSku = Some ''WIDGET-42'' \<rparr>
   \<and> subject (MockSmartDraftProvider_generate
        \<lparr> customerEmail = ''alice@example.com'', recentEventType = Some ''added_to_cart'',
          recommendedSku = Some ''WIDGET-42'' \<rparr>)
     = subject (MockSmartDraftProvider_generate
        \<lparr> customerEmail = ''bob@example.org'', recentEventType = None,
          recommendedSku = Some ''WIDGET-42'' \<rparr>)
   \<and> truthy_str (Some ''WIDGET-42'')
   \<and> subject (MockSmartDraftProvider_generate
        \<lparr> customerEmail = ''bob@example.org'', recentEventType = None,
          recommendedSku = Some ''WIDGET-42'' \<rparr>) = ''Still thinking about WIDGET-42?''
   \<and> \<not> truthy_str (Some [])
   \<and> subject (MockSmartDraftProvider_generate
        \<lparr> customerEmail = ''bob@example.org'', recentEventType = Some ''purchase'',
          recommendedSku = Some [] \<rparr>) = ''We have something special for you''"
  using mock_draft_subject_depends_on_sku_only
    [of "\<lparr> customerEmail = ''alice@example.com'', recentEventType = Some ''added_to_cart'',
           recommendedSku = Some ''WIDGET-42'' \<rparr>"
        "\<lparr> customerEmail = ''bob@example.org'', recentEventType = None,
           recommendedSku = Some ''WIDGET-42'' \<rparr>"
        "\<lparr> customerEmail = ''bob@example.org'', recentEventType = None,
           recommendedSku = Some ''WIDGET-42'' \<rparr>"
        "''WIDGET-42''"]
    mock_draft_subject_depends_on_sku_only
    [of "\<lparr> customerEmail = ''bob@example.org'', recentEventType = Some ''purchase'',
           recommendedSku = Some [] \<rparr>"
        "\<lparr> customerEmail = ''bob@example.org'', recentEventType = Some ''purchase'',
           recommendedSku = Some [] \<rparr>"
        "\<lparr> customerEmail = ''bob@example.org'', recentEventType = Some ''purchase'',
           recommendedSku = Some [] \<rparr>"
        "[]"]
  by (simp add: truthy_str_def)

subsection \<open>The definition validator\<close>

lemma trim_no_outer_space: "trim s \<noteq> [] \<Longrightarrow> no_outer_space (trim s)"
proof -
  assume ne: "trim s \<noteq> []"
  define t where "t = dropWhile is_space s"
  define z where "z = dropWhile is_space (rev t)"
  have tz: "trim s = rev z" by (simp add: trim_def t_def z_def)
  with ne have zne: "z \<noteq> []" by simp
  then have tne: "t \<noteq> []" by (auto simp: z_def)
  have "\<not> is_space (hd z)" using zne unfolding z_def by (rule hd_dropWhile)
  then have last_ok: "\<not> is_space (last (rev z))" using zne by (simp add: last_rev)
  have "last z = last (rev t)"
    using zne unfolding z_def by (metis last_appendR takeWhile_dropWhile_id)
  then have "hd (rev z) = hd t" using zne tne by (simp add: hd_rev last_rev)
  moreover have "\<not> is_space (hd t)" using tne unfolding t_def by (rule hd_dropWhile)
  ultimately show ?thesis using ne tz last_ok by (simp add: no_outer_space_def)
qed

text \<open>
  Claim C2 as stated fails: \<open>value\<close> is returned as it was given. The input below is
  accepted and its \<open>value\<close> keeps the blanks around it, while \<open>eventType\<close> and \<open>path\<close>
  lose theirs.
\<close>

theorem validate_keeps_value_untrimmed:
  "validateSegmentDefinition padded_value_definition
     = Inr (EventPropertyEquals ''page_view'' ''path'' '' /pricing '' 7)
   \<and> trim '' /pricing '' \<noteq> '' /pricing ''"
  by code_simp

text \<open>
  Claim C2, amended. For every input accepted by \<open>validateSegmentDefinition\<close>, the
  \<open>eventType\<close> of the returned definition, and the \<open>path\<close> of an \<open>event_property_equals\<close>
  definition, are the input's fields trimmed: non-empty, with no white space at either
  end. The \<open>value\<close> of an \<open>event_property_equals\<close> definition is the input's string
  unchanged.
\<close>

theorem validate_trims_eventType_and_path:
  assumes "validateSegmentDefinition j = Inr d"
  shows "eventType d = trim (str_of (getProp j ''eventType'')) \<and> no_outer_space (eventType d)
       \<and> (case d of
            EventPropertyEquals t p v n \<Rightarrow>
              p = trim (str_of (getProp j ''path'')) \<and> no_outer_space p
              \<and> getProp j ''value'' = Some (JStr v)
          | _ \<Rightarrow> True)"
proof (cases j)
  case (JObj kvs)
  have ne: "nonempty_string x \<Longrightarrow> no_outer_space (trim (str_of x))" for x
    by (auto simp: nonempty_string_def str_of_def trim_no_outer_space
             split: option.splits json.splits)
  have sv: "is_string x \<Longrightarrow> x = Some (JStr (str_of x))" for x
    by (auto simp: is_string_def str_of_def split: option.splits json.splits)
  from assms JObj show ?thesis
    by (auto simp: validateEventTypeInLastDays_def validateEventPropertyEquals_def
                   validateEventCountGteInLastDays_def ne sv
             split: option.splits json.splits if_splits)
qed (use assms in simp_all)

theorem validate_trims_eventType_and_path_witness:
  "validateSegmentDefinition padded_value_definition
     = Inr (EventPropertyEquals ''page_view'' ''path'' '' /pricing '' 7)
   \<and> no_outer_space ''page_view'' \<and> no_outer_space ''path''
   \<and> getProp padded_value_definition ''value'' = Some (JStr '' /pricing '')"
proof -
  have v: "validateSegmentDefinition padded_value_definition
     = Inr (EventPropertyEquals ''page_view'' ''path'' '' /pricing '' 7)"
    by code_simp
  have "no_outer_space ''page_view'' \<and> no_outer_space ''path''
        \<and> getProp padded_value_definition ''value'' = Some (JStr '' /pricing '')"
    using validate_trims_eventType_and_path [OF v]
    unfolding SegmentDefinition.sel SegmentDefinition.case by blast
  with v show ?thesis by blast
qed

subsection \<open>Lists and tables\<close>

lemma find_set:
  "find P xs = Some x \<Longrightarrow> P x \<and> x \<in> set xs"
  by (induction xs) (auto split: if_splits)

lemma find_append_new:
  "find P xs = None \<Longrightarrow> P x \<Longrightarrow> find P (xs @ [x]) = Some x"
  by (induction xs) (auto split: if_splits)

lemma find_None_filter: "find P xs = None \<Longrightarrow> filter P xs = []"
  by (induction xs) (auto split: if_splits)

lemma distinct_key_filter_le1:
  "distinct (map f xs) \<Longrightarrow> length (filter (\<lambda>x. f x = a) xs) \<le> 1"
proof (induction xs)
  case Nil
  then show ?case by simp
next
  case (Cons x xs)
  show ?case
  proof (cases "f x = a")
    case True
    with Cons.prems have "\<forall>y\<in>set xs. f y \<noteq> a"
      by (fastforce simp: image_iff)
    then have "filter (\<lambda>x. f x = a) xs = []"
      by (simp add: filter_empty_conv)
    with True show ?thesis by simp
  next
    case False
    with Cons show ?thesis by simp
  qed
qed

lemma events_unique_le1:
  assumes "events_unique db"
  shows "length (eventsWithKey cust k db) \<le> 1"
proof -
  let ?keyed = "filter (\<lambda>e. event_idempotencyKey e \<noteq> None) (eventTable db)"
  have "eventsWithKey cust k db
        = filter (\<lambda>e. (event_customerId e, event_idempotencyKey e) = (cust, Some k)) ?keyed"
    by (auto simp: eventsWithKey_def intro: filter_cong)
  moreover have "length (filter (\<lambda>e. (event_customerId e, event_idempotencyKey e) = (cust, Some k)) ?keyed) \<le> 1"
    using assms unfolding events_unique_def by (rule distinct_key_filter_le1)
  ultimately show ?thesis by simp
qed

lemma upsertCustomer_found:
  "find (\<lambda>c. customer_email c = email) (customerTable (snd (upsertCustomer email db)))
     = Some (fst (upsertCustomer email db))"
  by (auto simp: upsertCustomer_def Let_def find_append_new split: option.splits)

lemma upsertCustomer_again:
  "upsertCustomer email (snd (upsertCustomer email db))
     = (fst (upsertCustomer email db), snd (upsertCustomer email db))"
  using upsertCustomer_found [of email db]
  by (simp add: upsertCustomer_def [of email "snd (upsertCustomer email db)"])

lemma upsertCustomer_events:
  "eventTable (snd (upsertCustomer email db)) = eventTable db"
  by (auto simp: upsertCustomer_def Let_def split: option.splits)

subsection \<open>Draft status patches\<close>

text \<open>
  Claim C7. The draft status patch accepts only the values "approved" and "rejected": a
  body whose \<open>status\<close> is anything else is answered with the validation error (400) and a
  patch succeeds only with one of the two values, on a draft that is \<open>generated\<close>. For a
  draft whose status is not \<open>generated\<close>, every patch attempt fails and leaves the database
  as it was, and an attempt with an allowed value fails with the conflict (409); so
  approving an approved draft is a conflict.
\<close>

theorem patch_draft_status_rules:
  "(b \<noteq> JNull
      \<and> getProp b ''status'' \<noteq> Some (JStr ''approved'')
      \<and> getProp b ''status'' \<noteq> Some (JStr ''rejected'')
     \<longrightarrow> patchDraft cid did (Some b) db
           = (HttpError 400 ''status must be one of: approved, rejected'', db))
   \<and> (find (\<lambda>d. draft_id d = did \<and> draft_campaignId d = cid) (draftTable db) = Some existing
        \<and> draft_status existing \<noteq> Generated
      \<longrightarrow> (\<exists>code msg. patchDraft cid did reqBody db = (HttpError code msg, db))
        \<and> ((getProp b ''status'' = Some (JStr ''approved'')
              \<or> getProp b ''status'' = Some (JStr ''rejected''))
            \<longrightarrow> (\<exists>msg. patchDraft cid did (Some b) db = (HttpError 409 msg, db))))
   \<and> (fst (patchDraft cid did reqBody db) = HttpOk n upd
      \<longrightarrow> (\<exists>b'. reqBody = Some b'
             \<and> (getProp b' ''status'' = Some (JStr ''approved'') \<and> draft_status upd = Approved
                 \<or> getProp b' ''status'' = Some (JStr ''rejected'') \<and> draft_status upd = Rejected))
          \<and> (\<exists>existing'. find (\<lambda>d. draft_id d = did \<and> draft_campaignId d = cid) (draftTable db)
                              = Some existing'
                \<and> draft_status existing' = Generated))"
proof (intro conjI impI)
  assume "b \<noteq> JNull \<and> getProp b ''status'' \<noteq> Some (JStr ''approved'')
      \<and> getProp b ''status'' \<noteq> Some (JStr ''rejected'')"
  then show "patchDraft cid did (Some b) db
           = (HttpError 400 ''status must be one of: approved, rejected'', db)"
    by (cases b) (auto simp: patchDraft_def ALLOWED_STATUSES_def split: option.splits json.splits)
next
  assume a: "find (\<lambda>d. draft_id d = did \<and> draft_campaignId d = cid) (draftTable db) = Some existing
        \<and> draft_status existing \<noteq> Generated"
  show "\<exists>code msg. patchDraft cid did reqBody db = (HttpError code msg, db)"
  proof (cases reqBody)
    case None
    then show ?thesis by (simp add: patchDraft_def)
  next
    case (Some b')
    with a show ?thesis
      by (cases b') (auto simp: patchDraft_def split: option.splits json.splits)
  qed
next
  assume a: "find (\<lambda>d. draft_id d = did \<and> draft_campaignId d = cid) (draftTable db) = Some existing
        \<and> draft_status existing \<noteq> Generated"
    and s: "getProp b ''status'' = Some (JStr ''approved'')
              \<or> getProp b ''status'' = Some (JStr ''rejected'')"
  from s have "b \<noteq> JNull" by auto
  with a s show "\<exists>msg. patchDraft cid did (Some b) db = (HttpError 409 msg, db)"
    by (cases b) (auto simp: patchDraft_def ALLOWED_STATUSES_def)
next
  assume ok: "fst (patchDraft cid did reqBody db) = HttpOk n upd"
  then obtain b' where rb: "reqBody = Some b'" and nn: "b' \<noteq> JNull"
    by (cases reqBody; cases "the reqBody") (auto simp: patchDraft_def)
  from ok rb nn
  show "\<exists>b'. reqBody = Some b'
             \<and> (getProp b' ''status'' = Some (JStr ''approved'') \<and> draft_status upd = Approved
                 \<or> getProp b' ''status'' = Some (JStr ''rejected'') \<and> draft_status upd = Rejected)"
    by (cases b')
       (auto simp: patchDraft_def ALLOWED_STATUSES_def draftStatusOf_def str_of_def Let_def
             split: option.splits json.splits if_splits)
  from ok rb nn
  show "\<exists>existing'. find (\<lambda>d. draft_id d = did \<and> draft_campaignId d = cid) (draftTable db)
                              = Some existing'
                \<and> draft_status existing' = Generated"
    by (cases b')
       (auto simp: patchDraft_def ALLOWED_STATUSES_def Let_def
             split: option.splits json.splits if_splits)
qed

theorem patch_draft_status_rules_witness:
  "find (\<lambda>d. draft_id d = 4 \<and> draft_campaignId d = 3) (draftTable approved_db)
     = Some approved_draft
   \<and> draft_status approved_draft = Approved
   \<and> (\<exists>msg. patchDraft 3 4 (Some approve) approved_db = (HttpError 409 msg, approved_db))
   \<and> patchDraft 3 4 (Some unknown_status) approved_db
       = (HttpError 400 ''status must be one of: approved, rejected'', approved_db)
   \<and> fst (patchDraft 3 4 (Some approve) drafted_db) = HttpOk 200 approved_draft
   \<and> (\<exists>existing. find (\<lambda>d. draft_id d = 4 \<and> draft_campaignId d = 3) (draftTable drafted_db)
                      = Some existing
        \<and> draft_status existing = Generated)"
proof -
  have f: "find (\<lambda>d. draft_id d = 4 \<and> draft_campaignId d = 3) (draftTable approved_db)
             = Some approved_draft"
    by code_simp
  have st: "draft_status approved_draft = Approved"
    by code_simp
  have a: "getProp approve ''status'' = Some (JStr ''approved'')"
    by (simp add: approve_def)
  have u: "unknown_status \<noteq> JNull
           \<and> getProp unknown_status ''status'' \<noteq> Some (JStr ''approved'')
           \<and> getProp unknown_status ''status'' \<noteq> Some (JStr ''rejected'')"
    by (simp add: unknown_status_def)
  have ok: "fst (patchDraft 3 4 (Some approve) drafted_db) = HttpOk 200 approved_draft"
    by code_simp
  have ne: "draft_status approved_draft \<noteq> Generated"
    using st by simp
  show ?thesis
    using patch_draft_status_rules
            [where b = approve and cid = 3 and did = 4 and db = approved_db
               and existing = approved_draft and reqBody = "Some approve"]
          patch_draft_status_rules
            [where b = unknown_status and cid = 3 and did = 4 and db = approved_db
               and existing = approved_draft and reqBody = "Some unknown_status"]
          patch_draft_status_rules
            [where b = approve and cid = 3 and did = 4 and db = drafted_db
               and reqBody = "Some approve" and n = 200 and upd = approved_draft]
          f st a u ok ne
    by blast
qed

subsection \<open>Event ingestion\<close>

text \<open>
  Claim C9. A request that passes the route's validation and carries no
  \<open>Idempotency-Key\<close> header (or an empty one) always stores a new event, placed after the
  events already there, and is answered with \<open>created: true\<close> (201), whatever the database
  holds: an event with the same customer, type, properties and time does not prevent it.
\<close>

theorem ingestion_without_key_always_creates:
  assumes v: "validateEventRequest parseDate now reqBody = Inr dat"
    and h: "header = None \<or> header = Some []"
  shows "\<exists>r db'. postEvent parseDate now reqBody header db = (HttpOk 201 r, db')
           \<and> created r
           \<and> eventTable db'
               = eventTable db
                 @ [\<lparr> event_id = eventId r, event_customerId = customerId r,
                      event_type = data_type dat, event_properties = data_properties dat,
                      event_occurredAt = data_occurredAt dat, event_idempotencyKey = None \<rparr>]"
proof -
  from h have k: "headerKey header = None" by (auto simp: headerKey_def)
  show ?thesis
    by (simp add: postEvent_def v k Let_def upsertCustomer_events)
qed

theorem ingestion_without_key_always_creates_witness:
  "validateEventRequest millis 2000 (Some page_view_request) = Inr page_view_data
   \<and> (\<exists>r db'. postEvent millis 2000 (Some page_view_request) None example_db
                  = (HttpOk 201 r, db')
         \<and> created r
         \<and> eventTable db'
             = eventTable example_db
               @ [\<lparr> event_id = eventId r, event_customerId = customerId r,
                    event_type = ''page_view'',
                    event_properties = JObj [(''sku'', JStr ''WIDGET-42'')],
                    event_occurredAt = 1000, event_idempotencyKey = None \<rparr>])
   \<and> map (\<lambda>e. (event_customerId e, event_type e, event_properties e, event_occurredAt e))
         (eventTable (snd (postEvent millis 2000 (Some page_view_request) None example_db)))
       = [(1, ''page_view'', JObj [(''sku'', JStr ''WIDGET-42'')], 1000),
          (1, ''page_view'', JObj [(''sku'', JStr ''WIDGET-42'')], 1000)]"
proof -
  have v: "validateEventRequest millis 2000 (Some page_view_request) = Inr page_view_data"
    by code_simp
  have e: "map (\<lambda>e. (event_customerId e, event_type e, event_properties e, event_occurredAt e))
         (eventTable (snd (postEvent millis 2000 (Some page_view_request) None example_db)))
       = [(1, ''page_view'', JObj [(''sku'', JStr ''WIDGET-42'')], 1000),
          (1, ''page_view'', JObj [(''sku'', JStr ''WIDGET-42'')], 1000)]"
    by code_simp
  show ?thesis
    using ingestion_without_key_always_creates [OF v, of None example_db] v e
    by (simp add: page_view_data_def)
qed

text \<open>
  Claim C6. Two valid ingestion requests for the same customer (the same normalised
  email) that carry the same non-empty \<open>Idempotency-Key\<close>, run one after the other on a
  database that satisfies the unique constraint on (customer, key): the second request
  changes nothing, it is answered 200 with \<open>created: false\<close> and the event identifier and
  customer identifier of the first answer, and afterwards exactly one event is stored for
  that customer and key, the one both answers name.
\<close>

theorem duplicate_key_is_absorbed:
  assumes u: "events_unique db"
    and v1: "validateEventRequest parseDate now1 body1 = Inr dat1"
    and v2: "validateEventRequest parseDate now2 body2 = Inr dat2"
    and same: "data_email dat1 = data_email dat2"
    and k: "k \<noteq> []"
    and r1: "postEvent parseDate now1 body1 (Some k) db = (resp1, db1)"
    and r2: "postEvent parseDate now2 body2 (Some k) db1 = (resp2, db2)"
  shows "\<exists>code r. resp1 = HttpOk code r
           \<and> resp2 = HttpOk 200 (r\<lparr> created := False \<rparr>)
           \<and> db2 = db1
           \<and> map event_id (eventsWithKey (customerId r) k db2) = [eventId r]"
proof -
  define cu where "cu = upsertCustomer (data_email dat1) db"
  define c where "c = fst cu"
  define dbc where "dbc = snd cu"
  define P where "P = (\<lambda>e::Event. event_customerId e = customer_id c \<and> event_idempotencyKey e = Some k)"
  have hk: "headerKey (Some k) = Some k" using k by (simp add: headerKey_def)
  have ev_dbc: "eventTable dbc = eventTable db"
    by (simp add: dbc_def cu_def upsertCustomer_events)
  have found: "find (\<lambda>x. customer_email x = data_email dat2) (customerTable dbc) = Some c"
    using upsertCustomer_found [of "data_email dat1" db] same
    by (simp add: c_def dbc_def cu_def)
  then have again: "upsertCustomer (data_email dat2) dbc = (c, dbc)"
    by (simp add: upsertCustomer_def)
  have ewk: "eventsWithKey (customer_id c) k d = filter P (eventTable d)" for d
    by (simp add: eventsWithKey_def P_def)
  show ?thesis
  proof (cases "find P (eventTable dbc)")
    case None
    define ev where "ev = \<lparr> event_id = nextId dbc, event_customerId = customer_id c,
                            event_type = data_type dat1, event_properties = data_properties dat1,
                            event_occurredAt = data_occurredAt dat1,
                            event_idempotencyKey = Some k \<rparr>"
    have Pev: "P ev" by (simp add: P_def ev_def)
    from None r1 have resp1: "resp1 = HttpOk 201 \<lparr> created = True, eventId = event_id ev,
                                                  customerId = customer_id c \<rparr>"
      and db1: "db1 = dbc\<lparr> eventTable := eventTable dbc @ [ev], nextId := Suc (nextId dbc) \<rparr>"
      by (auto simp: postEvent_def v1 hk Let_def cu_def [symmetric] c_def [symmetric]
                     dbc_def [symmetric] P_def [symmetric] ev_def)
    have up2: "upsertCustomer (data_email dat2) db1 = (c, db1)"
      using found by (simp add: upsertCustomer_def db1)
    have f2: "find P (eventTable db1) = Some ev"
      using None Pev by (simp add: db1 find_append_new)
    from r2 have "resp2 = HttpOk 200 \<lparr> created = False, eventId = event_id ev,
                                        customerId = customer_id c \<rparr>" and "db2 = db1"
      using f2 by (auto simp: postEvent_def v2 hk Let_def up2 P_def [symmetric])
    moreover have "map event_id (eventsWithKey (customer_id c) k db1) = [event_id ev]"
      using None Pev by (simp add: ewk db1 find_None_filter)
    ultimately show ?thesis using resp1 by simp
  next
    case (Some ev)
    from Some r1 have resp1: "resp1 = HttpOk 200 \<lparr> created = False, eventId = event_id ev,
                                                  customerId = customer_id c \<rparr>"
      and db1: "db1 = dbc"
      by (auto simp: postEvent_def v1 hk Let_def cu_def [symmetric] c_def [symmetric]
                     dbc_def [symmetric] P_def [symmetric])
    from r2 have "resp2 = HttpOk 200 \<lparr> created = False, eventId = event_id ev,
                                        customerId = customer_id c \<rparr>" and "db2 = db1"
      using Some by (auto simp: postEvent_def v2 hk Let_def again db1 P_def [symmetric])
    moreover have "map event_id (eventsWithKey (customer_id c) k db1) = [event_id ev]"
    proof -
      from Some have "ev \<in> set (filter P (eventTable dbc))" by (auto dest: find_set)
      moreover have "length (filter P (eventTable dbc)) \<le> 1"
        using events_unique_le1 [OF u, of "customer_id c" k] by (simp add: ewk ev_dbc)
      ultimately have "filter P (eventTable dbc) = [ev]"
        by (cases "filter P (eventTable dbc)") auto
      then show ?thesis by (simp add: ewk db1)
    qed
    ultimately show ?thesis using resp1 by simp
  qed
qed

theorem duplicate_key_is_absorbed_witness:
  "events_unique example_db
   \<and> validateEventRequest millis 2000 (Some page_view_request) = Inr page_view_data
   \<and> ''key-1'' \<noteq> []
   \<and> fst (postEvent millis 2000 (Some page_view_request) (Some ''key-1'') example_db)
       = HttpOk 201 \<lparr> created = True, eventId = 4, customerId = 1 \<rparr>
   \<and> (\<exists>code r.
         fst (postEvent millis 2000 (Some page_view_request) (Some ''key-1'') example_db)
           = HttpOk code r
         \<and> fst (postEvent millis 2001 (Some page_view_request) (Some ''key-1'')
                  (snd (postEvent millis 2000 (Some page_view_request) (Some ''key-1'')
                          example_db)))
             = HttpOk 200 (r\<lparr> created := False \<rparr>)
         \<and> snd (postEvent millis 2001 (Some page_view_request) (Some ''key-1'')
                  (snd (postEvent millis 2000 (Some page_view_request) (Some ''key-1'')
                          example_db)))
             = snd (postEvent millis 2000 (Some page_view_request) (Some ''key-1'') example_db)
         \<and> map event_id
               (eventsWithKey (customerId r) ''key-1''
                  (snd (postEvent millis 2001 (Some page_view_request) (Some ''key-1'')
                     (snd (postEvent millis 2000 (Some page_view_request) (Some ''key-1'')
                             example_db)))))
             = [eventId r])"
proof -
  have u: "events_unique example_db"
    by code_simp
  have v1: "validateEventRequest millis 2000 (Some page_view_request) = Inr page_view_data"
    by code_simp
  have v2: "validateEventRequest millis 2001 (Some page_view_request) = Inr page_view_data"
    by code_simp
  have k: "''key-1'' \<noteq> []"
    by simp
  have first: "fst (postEvent millis 2000 (Some page_view_request) (Some ''key-1'') example_db)
       = HttpOk 201 \<lparr> created = True, eventId = 4, customerId = 1 \<rparr>"
    by code_simp
  show ?thesis
    using duplicate_key_is_absorbed [OF u v1 v2 refl k surjective_pairing surjective_pairing]
          u v1 k first
    by blast
qed

subsection \<open>Campaign status\<close>

text \<open>
  Claim C3 does not hold of the code. The example campaign goes through draft
  generation, approval of its draft and the send, which leaves it \<open>sent\<close>; generating
  drafts once more sets it back to \<open>drafted\<close>, because the route writes \<open>drafted\<close>
  whenever it processed a customer, whatever the status was.
\<close>

theorem regenerating_drafts_reopens_sent_campaign:
  "campaignStatus 3 example_db = Some CampaignDraft
   \<and> campaignStatus 3 drafted_db = Some CampaignDrafted
   \<and> campaignStatus 3 sent_db = Some CampaignSent
   \<and> fst (generateDrafts 3000 3 sent_db) = HttpOk 200 1
   \<and> campaignStatus 3 (snd (generateDrafts 3000 3 sent_db)) = Some CampaignDrafted"
  by code_simp

subsection \<open>Segment evaluation\<close>

lemma count_list_map_filter: "count_list (map f xs) c = length (filter (\<lambda>x. f x = c) xs)"
  by (induction xs) auto


lemma fetchCustomers_customers:
  "customers (fetchCustomers db ids)
     = take PREVIEW_LIMIT (sort_key customer_email
         (filter (\<lambda>c. customer_id c \<in> set ids) (customerTable db)))"
  by (simp add: fetchCustomers_def)

lemma in_matching_ids:
  "c \<in> matching_ids now def db \<longleftrightarrow> customer_matches now def db c"
  by (cases "def")
     (force simp: matching_ids_def customer_matches_def matching_events_def
                  filter_empty_conv image_iff)+

lemma evaluateSegment_ids:
  "\<exists>ids. distinct ids \<and> set ids = matching_ids now def db
         \<and> evaluateSegment now def db = fetchCustomers db ids"
proof (cases "def")
  case (EventTypeInLastDays t d)
  let ?ids = "remdups (map event_customerId
                (filter (\<lambda>e. event_type e = t \<and> now - d * DAY_MS \<le> event_occurredAt e)
                        (eventTable db)))"
  have "set ?ids = matching_ids now def db"
    by (force simp: EventTypeInLastDays in_matching_ids customer_matches_def
                    matching_events_def event_matches_def filter_empty_conv image_iff)
  moreover have "evaluateSegment now def db = fetchCustomers db ?ids"
    by (simp add: EventTypeInLastDays evaluateSegment_def evaluateEventTypeInLastDays_def)
  ultimately show ?thesis by (intro exI [of _ ?ids]) simp
next
  case (EventPropertyEquals t p v d)
  let ?ids = "remdups (map event_customerId
                (filter (\<lambda>e. event_type e = t \<and> now - d * DAY_MS \<le> event_occurredAt e
                              \<and> getProp (event_properties e) p = Some (JStr v))
                        (eventTable db)))"
  have "set ?ids = matching_ids now def db"
    by (force simp: EventPropertyEquals in_matching_ids customer_matches_def
                    matching_events_def event_matches_def filter_empty_conv image_iff)
  moreover have "evaluateSegment now def db = fetchCustomers db ?ids"
    by (simp add: EventPropertyEquals evaluateSegment_def evaluateEventPropertyEquals_def)
  ultimately show ?thesis by (intro exI [of _ ?ids]) simp
next
  case (EventCountGteInLastDays t d n)
  let ?evs = "filter (\<lambda>e. event_type e = t \<and> now - d * DAY_MS \<le> event_occurredAt e)
                     (eventTable db)"
  let ?ids = "filter (\<lambda>c. n \<le> int (count_list (map event_customerId ?evs) c))
                     (remdups (map event_customerId ?evs))"
  have me: "matching_events now (EventCountGteInLastDays t d n) db c
              = filter (\<lambda>e. event_customerId e = c) ?evs" for c
    by (auto simp: matching_events_def event_matches_def intro: filter_cong)
  have "set ?ids = matching_ids now def db"
  proof (rule set_eqI)
    fix c
    have a: "c \<in> set (map event_customerId ?evs)
               \<longleftrightarrow> filter (\<lambda>e. event_customerId e = c) ?evs \<noteq> []"
      by (force simp: filter_empty_conv)
    have "c \<in> set ?ids
            \<longleftrightarrow> filter (\<lambda>e. event_customerId e = c) ?evs \<noteq> []
                \<and> n \<le> int (length (filter (\<lambda>e. event_customerId e = c) ?evs))"
      using a by (auto simp: count_list_map_filter)
    then show "c \<in> set ?ids \<longleftrightarrow> c \<in> matching_ids now def db"
      by (simp add: in_matching_ids EventCountGteInLastDays customer_matches_def me)
  qed
  moreover have "evaluateSegment now def db = fetchCustomers db ?ids"
    by (simp add: EventCountGteInLastDays evaluateSegment_def evaluateEventCountGte_def Let_def)
  ultimately show ?thesis by (intro exI [of _ ?ids]) simp
qed

lemma evaluateSegment_customers:
  "customers (evaluateSegment now def db)
     = take 50 (sort_key customer_email
         (filter (\<lambda>c. customer_id c \<in> matching_ids now def db) (customerTable db)))"
proof -
  obtain ids where "set ids = matching_ids now def db"
    and "evaluateSegment now def db = fetchCustomers db ids"
    using evaluateSegment_ids by blast
  then show ?thesis
    by (simp add: fetchCustomers_customers PREVIEW_LIMIT_def)
qed


lemma page_view_30_valid:
  "validateSegmentDefinition page_view_30 = Inr (EventTypeInLastDays ''page_view'' 30)"
  by code_simp

lemma crowded_count:
  "count (evaluateSegment 2000 (EventTypeInLastDays ''page_view'' 30) crowded_db) = 51"
  by code_simp

lemma crowded_processed_ids:
  "map customer_id (customers (evaluateSegment 2000 (EventTypeInLastDays ''page_view'' 30)
                                 crowded_db)) = [0..<50]"
  by code_simp


subsection \<open>Draft generation\<close>

lemma groupByCustomer_fold:
  "foldl (\<lambda>m e. m(event_customerId e \<mapsto>
                    (case m (event_customerId e) of None \<Rightarrow> [] | Some l \<Rightarrow> l) @ [e])) m evs c
   = (if filter (\<lambda>e. event_customerId e = c) evs = [] then m c
      else Some ((case m c of None \<Rightarrow> [] | Some l \<Rightarrow> l)
                 @ filter (\<lambda>e. event_customerId e = c) evs))"
  by (induction evs arbitrary: m) auto

lemma groupByCustomer_filter:
  "(case groupByCustomer evs c of None \<Rightarrow> [] | Some l \<Rightarrow> l)
     = filter (\<lambda>e. event_customerId e = c) evs"
  by (simp add: groupByCustomer_def groupByCustomer_fold)

lemma draftInputFor_fresh:
  assumes "customer_id c \<in> set ids"
  shows "draftInputFor (groupByCustomer (recentEventsOf now ids db)) c = freshDraftInput now db c"
proof -
  have "filter (\<lambda>e. event_customerId e = customer_id c) (recentEventsOf now ids db)
          = recentEventsOfCustomer now db (customer_id c)"
    using assms
    by (auto simp: recentEventsOf_def recentEventsOfCustomer_def filter_sort
             intro!: arg_cong [where f = "sort_key (\<lambda>e. - event_occurredAt e)"] filter_cong)
  then show ?thesis
    by (simp add: draftInputFor_def freshDraftInput_def groupByCustomer_filter Let_def)
qed

subsection \<open>The upsert on the draft table\<close>

lemma upsertDraft_other_key:
  "k \<noteq> (cid, cust) \<Longrightarrow>
   filter (\<lambda>d. draft_key d = k) (upsertDraft cid cust new sub bdy sku ds)
     = filter (\<lambda>d. draft_key d = k) ds"
  by (induction ds) (auto simp: draft_key_def)

lemma upsertDraft_keys:
  "map draft_key (upsertDraft cid cust new sub bdy sku ds)
     = (if (cid, cust) \<in> set (map draft_key ds) then map draft_key ds
        else map draft_key ds @ [(cid, cust)])"
  by (induction ds) (auto simp: draft_key_def)

lemma upsertDraft_distinct:
  "distinct (map draft_key ds) \<Longrightarrow>
   distinct (map draft_key (upsertDraft cid cust new sub bdy sku ds))"
  by (simp add: upsertDraft_keys)

lemma upsertDraft_length:
  "length (upsertDraft cid cust new sub bdy sku ds)
     = length ds + (if filter (\<lambda>d. draft_key d = (cid, cust)) ds = [] then 1 else 0)"
  by (induction ds) (auto simp: draft_key_def)

lemma upsertDraft_new:
  "filter (\<lambda>d. draft_key d = (cid, cust)) ds = [] \<Longrightarrow>
   filter (\<lambda>d. draft_key d = (cid, cust)) (upsertDraft cid cust new sub bdy sku ds)
     = [\<lparr> draft_id = new, draft_campaignId = cid, draft_customerId = cust,
          draft_subject = sub, draft_body = bdy, draft_recommendedSku = sku,
          draft_status = Generated \<rparr>]"
  by (induction ds) (auto simp: draft_key_def split: if_splits)

lemma upsertDraft_old:
  "distinct (map draft_key ds) \<Longrightarrow>
   filter (\<lambda>d. draft_key d = (cid, cust)) ds = [old] \<Longrightarrow>
   filter (\<lambda>d. draft_key d = (cid, cust)) (upsertDraft cid cust new sub bdy sku ds)
     = [old\<lparr> draft_subject := sub, draft_body := bdy, draft_recommendedSku := sku \<rparr>]"
proof (induction ds)
  case Nil
  then show ?case by simp
next
  case (Cons d ds)
  show ?case
  proof (cases "draft_key d = (cid, cust)")
    case True
    with Cons.prems have "filter (\<lambda>d. draft_key d = (cid, cust)) ds = []" and "d = old"
      by (auto simp: filter_empty_conv image_iff)
    with True show ?thesis by (auto simp: draft_key_def)
  next
    case False
    with Cons show ?thesis by (auto simp: draft_key_def)
  qed
qed

lemma distinct_filter_key_cases:
  "distinct (map draft_key ds) \<Longrightarrow>
   filter (\<lambda>d. draft_key d = k) ds = [] \<or> (\<exists>old. filter (\<lambda>d. draft_key d = k) ds = [old])"
proof -
  assume "distinct (map draft_key ds)"
  then have "length (filter (\<lambda>d. draft_key d = k) ds) \<le> 1"
    by (rule distinct_key_filter_le1)
  then show ?thesis
    by (cases "filter (\<lambda>d. draft_key d = k) ds") (auto simp: length_Suc_conv)
qed

lemma draftStep_tables:
  "draftTable (fst (draftStep cid ebc st c))
     = upsertDraft cid (customer_id c) (nextId (fst st))
         (subject (smartGenerateDraft (draftInputFor ebc c)))
         (body (smartGenerateDraft (draftInputFor ebc c)))
         (recommendedSku (draftInputFor ebc c)) (draftTable (fst st))"
  "customerTable (fst (draftStep cid ebc st c)) = customerTable (fst st)"
  "eventTable (fst (draftStep cid ebc st c)) = eventTable (fst st)"
  "campaignTable (fst (draftStep cid ebc st c)) = campaignTable (fst st)"
  "sendTable (fst (draftStep cid ebc st c)) = sendTable (fst st)"
  "snd (draftStep cid ebc st c) = Suc (snd st)"
  by (simp_all add: draftStep_def Let_def)

lemma draft_fold_tables:
  "customerTable (fst (foldl (draftStep cid ebc) st cs)) = customerTable (fst st)
   \<and> eventTable (fst (foldl (draftStep cid ebc) st cs)) = eventTable (fst st)
   \<and> campaignTable (fst (foldl (draftStep cid ebc) st cs)) = campaignTable (fst st)
   \<and> sendTable (fst (foldl (draftStep cid ebc) st cs)) = sendTable (fst st)
   \<and> snd (foldl (draftStep cid ebc) st cs) = snd st + length cs"
  by (induction cs arbitrary: st) (simp_all add: draftStep_tables)

lemma draft_fold_distinct:
  "distinct (map draft_key (draftTable (fst st))) \<Longrightarrow>
   distinct (map draft_key (draftTable (fst (foldl (draftStep cid ebc) st cs))))"
  by (induction cs arbitrary: st) (simp_all add: draftStep_tables upsertDraft_distinct)

lemma draft_fold_other_key:
  "k \<notin> (\<lambda>c. (cid, customer_id c)) ` set cs \<Longrightarrow>
   filter (\<lambda>d. draft_key d = k) (draftTable (fst (foldl (draftStep cid ebc) st cs)))
     = filter (\<lambda>d. draft_key d = k) (draftTable (fst st))"
  by (induction cs arbitrary: st) (simp_all add: draftStep_tables upsertDraft_other_key)

lemma withFreshCopy_carries: "carriesCopy inp (withFreshCopy inp old)"
  by (simp add: carriesCopy_def withFreshCopy_def)

lemma draftStep_upserted:
  assumes "distinct (map draft_key (draftTable (fst st)))"
  shows "upserted (draftInputFor ebc c)
           (filter (\<lambda>d. draft_key d = (cid, customer_id c)) (draftTable (fst st)))
           (filter (\<lambda>d. draft_key d = (cid, customer_id c))
                   (draftTable (fst (draftStep cid ebc st c))))"
proof -
  let ?k = "(cid, customer_id c)"
  let ?inp = "draftInputFor ebc c"
  from distinct_filter_key_cases [OF assms, of ?k]
  consider "filter (\<lambda>d. draft_key d = ?k) (draftTable (fst st)) = []"
    | old where "filter (\<lambda>d. draft_key d = ?k) (draftTable (fst st)) = [old]"
    by blast
  then show ?thesis
  proof cases
    case 1
    then show ?thesis
      by (simp add: upserted_def draftStep_tables upsertDraft_new carriesCopy_def)
  next
    case 2
    then show ?thesis
      using upsertDraft_old [OF assms 2]
      by (simp add: upserted_def draftStep_tables withFreshCopy_def carriesCopy_def)
  qed
qed

lemma draft_fold_upserted:
  assumes "distinct (map customer_id cs)"
    and "distinct (map draft_key (draftTable (fst st)))"
    and "c \<in> set cs"
  shows "upserted (draftInputFor ebc c)
           (filter (\<lambda>d. draft_key d = (cid, customer_id c)) (draftTable (fst st)))
           (filter (\<lambda>d. draft_key d = (cid, customer_id c))
                   (draftTable (fst (foldl (draftStep cid ebc) st cs))))"
  using assms
proof (induction cs arbitrary: st)
  case Nil
  then show ?case by simp
next
  case (Cons a cs)
  let ?st1 = "draftStep cid ebc st a"
  have d1: "distinct (map draft_key (draftTable (fst ?st1)))"
    using Cons.prems(2) by (simp add: draftStep_tables upsertDraft_distinct)
  show ?case
  proof (cases "c = a")
    case True
    have "(cid, customer_id a) \<notin> (\<lambda>c. (cid, customer_id c)) ` set cs"
      using Cons.prems(1) by (auto simp: image_iff)
    then have "filter (\<lambda>d. draft_key d = (cid, customer_id a))
                      (draftTable (fst (foldl (draftStep cid ebc) ?st1 cs)))
               = filter (\<lambda>d. draft_key d = (cid, customer_id a)) (draftTable (fst ?st1))"
      by (rule draft_fold_other_key)
    with draftStep_upserted [OF Cons.prems(2), of ebc a cid] True
    show ?thesis by simp
  next
    case False
    with Cons.prems have c: "c \<in> set cs" and ne: "customer_id c \<noteq> customer_id a"
      by (auto simp: image_iff)
    have "filter (\<lambda>d. draft_key d = (cid, customer_id c)) (draftTable (fst ?st1))
            = filter (\<lambda>d. draft_key d = (cid, customer_id c)) (draftTable (fst st))"
      using ne by (simp add: draftStep_tables upsertDraft_other_key)
    moreover have "upserted (draftInputFor ebc c)
           (filter (\<lambda>d. draft_key d = (cid, customer_id c)) (draftTable (fst ?st1)))
           (filter (\<lambda>d. draft_key d = (cid, customer_id c))
                   (draftTable (fst (foldl (draftStep cid ebc) ?st1 cs))))"
      using Cons.prems(1) d1 c by (intro Cons.IH) simp_all
    ultimately show ?thesis by simp
  qed
qed

lemma draft_fold_length:
  assumes "distinct (map customer_id cs)"
  shows "length (draftTable (fst (foldl (draftStep cid ebc) st cs)))
           = length (draftTable (fst st))
             + length (filter (\<lambda>c. filter (\<lambda>d. draft_key d = (cid, customer_id c))
                                           (draftTable (fst st)) = []) cs)"
  using assms
proof (induction cs arbitrary: st)
  case Nil
  then show ?case by simp
next
  case (Cons a cs)
  let ?st1 = "draftStep cid ebc st a"
  have same: "filter (\<lambda>d. draft_key d = (cid, customer_id c)) (draftTable (fst ?st1))
            = filter (\<lambda>d. draft_key d = (cid, customer_id c)) (draftTable (fst st))"
    if "c \<in> set cs" for c
  proof -
    from that Cons.prems have "customer_id c \<noteq> customer_id a" by (auto simp: image_iff)
    then show ?thesis by (simp add: draftStep_tables upsertDraft_other_key)
  qed
  have "filter (\<lambda>c. filter (\<lambda>d. draft_key d = (cid, customer_id c))
                             (draftTable (fst ?st1)) = []) cs
        = filter (\<lambda>c. filter (\<lambda>d. draft_key d = (cid, customer_id c))
                               (draftTable (fst st)) = []) cs"
    by (rule filter_cong) (simp_all add: same)
  moreover have "length (draftTable (fst (foldl (draftStep cid ebc) ?st1 cs)))
           = length (draftTable (fst ?st1))
             + length (filter (\<lambda>c. filter (\<lambda>d. draft_key d = (cid, customer_id c))
                                           (draftTable (fst ?st1)) = []) cs)"
    using Cons.prems by (intro Cons.IH) simp
  ultimately show ?case
    by (simp add: draftStep_tables upsertDraft_length)
qed

lemma preview_distinct_ids:
  assumes "distinct (map customer_id (customerTable db))"
  shows "distinct (map customer_id (customers (evaluateSegment now def db)))"
proof -
  let ?ys = "sort_key customer_email
               (filter (\<lambda>c. customer_id c \<in> matching_ids now def db) (customerTable db))"
  have cs: "customers (evaluateSegment now def db) = take 50 ?ys"
    by (rule evaluateSegment_customers)
  from assms have "distinct (customerTable db)" and "inj_on customer_id (set (customerTable db))"
    by (simp_all add: distinct_map)
  then have "distinct ?ys" and "inj_on customer_id (set ?ys)"
    by (auto intro: inj_on_subset)
  then have "distinct (map customer_id ?ys)"
    by (simp add: distinct_map)
  then show ?thesis
    unfolding cs take_map [symmetric] by (rule distinct_take)
qed

lemma setCampaignStatus_tables:
  "draftTable (setCampaignStatus cid st db) = draftTable db"
  "customerTable (setCampaignStatus cid st db) = customerTable db"
  "eventTable (setCampaignStatus cid st db) = eventTable db"
  by (simp_all add: setCampaignStatus_def)

lemma generateDrafts_unfold:
  assumes "find (\<lambda>c. campaign_id c = cid) (campaignTable db) = Some campaign"
    and "validateSegmentDefinition (campaign_segmentSnapshot campaign) = Inr def"
    and "customers (evaluateSegment now def db) \<noteq> []"
  shows "generateDrafts now cid db
     = (HttpOk 200 (length (customers (evaluateSegment now def db))),
        setCampaignStatus cid CampaignDrafted
          (fst (foldl (draftStep cid (groupByCustomer
                         (recentEventsOf now
                            (map customer_id (customers (evaluateSegment now def db))) db)))
                      (db, 0) (customers (evaluateSegment now def db)))))"
  using assms by (simp add: generateDrafts_def Let_def draft_fold_tables)

lemma generateDrafts_response:
  assumes "find (\<lambda>c. campaign_id c = cid) (campaignTable db) = Some campaign"
    and "validateSegmentDefinition (campaign_segmentSnapshot campaign) = Inr def"
  shows "fst (generateDrafts now cid db) = HttpOk 200 (length (processedCustomers now cid db))"
proof (cases "customers (evaluateSegment now def db) = []")
  case True
  with assms show ?thesis by (simp add: generateDrafts_def processedCustomers_def Let_def)
next
  case False
  with assms show ?thesis
    by (simp add: generateDrafts_unfold processedCustomers_def)
qed

lemma generateDrafts_idle:
  assumes "processedCustomers now cid db = []"
  shows "snd (generateDrafts now cid db) = db"
  using assms
  by (auto simp: generateDrafts_def processedCustomers_def Let_def
           split: option.splits sum.splits)

lemma generateDrafts_run:
  assumes u: "drafts_unique db" and ids: "distinct (map customer_id (customerTable db))"
  shows "drafts_unique (snd (generateDrafts now cid db))
     \<and> customerTable (snd (generateDrafts now cid db)) = customerTable db
     \<and> eventTable (snd (generateDrafts now cid db)) = eventTable db
     \<and> (\<forall>c\<in>set (processedCustomers now cid db).
           upserted (freshDraftInput now db c) (draftsOf cid (customer_id c) db)
                    (draftsOf cid (customer_id c) (snd (generateDrafts now cid db))))
     \<and> (\<forall>cust. cust \<notin> customer_id ` set (processedCustomers now cid db)
           \<longrightarrow> draftsOf cid cust (snd (generateDrafts now cid db)) = draftsOf cid cust db)
     \<and> length (draftTable (snd (generateDrafts now cid db)))
         = length (draftTable db)
           + length (filter (\<lambda>c. draftsOf cid (customer_id c) db = [])
                            (processedCustomers now cid db))"
proof (cases "processedCustomers now cid db = []")
  case True
  with u show ?thesis by (simp add: generateDrafts_idle)
next
  case False
  then obtain campaign "def"
    where f: "find (\<lambda>c. campaign_id c = cid) (campaignTable db) = Some campaign"
      and v: "validateSegmentDefinition (campaign_segmentSnapshot campaign) = Inr def"
    by (auto simp: processedCustomers_def split: option.splits sum.splits)
  define P where "P = customers (evaluateSegment now def db)"
  define ebc where "ebc = groupByCustomer (recentEventsOf now (map customer_id P) db)"
  define st' where "st' = foldl (draftStep cid ebc) (db, 0) P"
  have pc: "processedCustomers now cid db = P"
    by (simp add: processedCustomers_def f v P_def)
  with False have ne: "customers (evaluateSegment now def db) \<noteq> []"
    by (simp add: P_def)
  have g: "snd (generateDrafts now cid db) = setCampaignStatus cid CampaignDrafted (fst st')"
    by (simp add: generateDrafts_unfold [OF f v ne] st'_def ebc_def P_def)
  have dP: "distinct (map customer_id P)"
    unfolding P_def using ids by (rule preview_distinct_ids)
  have d0: "distinct (map draft_key (draftTable (fst (db, 0::nat))))"
    using u by (simp add: drafts_unique_def)
  have 1: "drafts_unique (snd (generateDrafts now cid db))"
    using draft_fold_distinct [OF d0, of cid ebc P]
    by (simp add: g drafts_unique_def setCampaignStatus_tables st'_def)
  have 2: "customerTable (snd (generateDrafts now cid db)) = customerTable db"
          "eventTable (snd (generateDrafts now cid db)) = eventTable db"
    using draft_fold_tables [of cid ebc "(db, 0)" P]
    by (simp_all add: g setCampaignStatus_tables st'_def)
  have 3: "upserted (freshDraftInput now db c) (draftsOf cid (customer_id c) db)
                    (draftsOf cid (customer_id c) (snd (generateDrafts now cid db)))"
    if "c \<in> set P" for c
  proof -
    from that have "customer_id c \<in> set (map customer_id P)" by simp
    then have "draftInputFor ebc c = freshDraftInput now db c"
      unfolding ebc_def by (rule draftInputFor_fresh)
    with draft_fold_upserted [OF dP d0 that, of ebc cid]
    show ?thesis by (simp add: g draftsOf_def setCampaignStatus_tables st'_def)
  qed
  have 4: "draftsOf cid cust (snd (generateDrafts now cid db)) = draftsOf cid cust db"
    if "cust \<notin> customer_id ` set P" for cust
  proof -
    from that have "(cid, cust) \<notin> (\<lambda>c. (cid, customer_id c)) ` set P" by auto
    from draft_fold_other_key [OF this, of ebc "(db, 0)"]
    show ?thesis by (simp add: g draftsOf_def setCampaignStatus_tables st'_def)
  qed
  have 5: "length (draftTable (snd (generateDrafts now cid db)))
         = length (draftTable db)
           + length (filter (\<lambda>c. draftsOf cid (customer_id c) db = []) P)"
    using draft_fold_length [OF dP, of cid ebc "(db, 0)"]
    by (simp add: g draftsOf_def setCampaignStatus_tables st'_def)
  from 1 2 3 4 5 show ?thesis by (simp add: pc)
qed

text \<open>
  Claim C4. Draft generation run twice for one campaign, on a database that satisfies the
  unique constraint on (campaign, customer) and has unique customer identifiers; between
  the runs anything but the draft table may change. After the first run every customer it
  processed has exactly one draft. After the second run every customer it processed has
  exactly one draft, whose subject, body and SKU are the ones the second run generated;
  where the first run had left a draft, that record is the one rewritten (its identifier
  and status stay). No key ever has two drafts, and the table grows only by the customers
  that had no draft before the second run.
\<close>

theorem regeneration_updates_drafts_in_place:
  assumes u: "drafts_unique db0"
    and ids: "distinct (map customer_id (customerTable db0))"
    and db1: "db1 = snd (generateDrafts now1 cid db0)"
    and mid: "draftTable db1' = draftTable db1"
    and ids': "distinct (map customer_id (customerTable db1'))"
    and db2: "db2 = snd (generateDrafts now2 cid db1')"
  shows "(\<forall>c\<in>set (processedCustomers now1 cid db0).
            \<exists>d. draftsOf cid (customer_id c) db1 = [d]
                \<and> carriesCopy (freshDraftInput now1 db0 c) d)
       \<and> (\<forall>c\<in>set (processedCustomers now2 cid db1').
            \<exists>d. draftsOf cid (customer_id c) db2 = [d]
                \<and> carriesCopy (freshDraftInput now2 db1' c) d
                \<and> (\<forall>old. draftsOf cid (customer_id c) db1 = [old]
                      \<longrightarrow> d = withFreshCopy (freshDraftInput now2 db1' c) old))
       \<and> drafts_unique db2
       \<and> length (draftTable db2)
           = length (draftTable db1)
             + length (filter (\<lambda>c. draftsOf cid (customer_id c) db1 = [])
                              (processedCustomers now2 cid db1'))"
proof -
  note r1 = generateDrafts_run [OF u ids, of now1 cid, folded db1]
  from r1 have u1: "drafts_unique db1" by blast
  with mid have u1': "drafts_unique db1'" by (simp add: drafts_unique_def)
  note r2 = generateDrafts_run [OF u1' ids', of now2 cid, folded db2]
  have same: "draftsOf cid x db1' = draftsOf cid x db1" for x
    by (simp add: draftsOf_def mid)
  have a: "\<forall>c\<in>set (processedCustomers now1 cid db0).
            \<exists>d. draftsOf cid (customer_id c) db1 = [d]
                \<and> carriesCopy (freshDraftInput now1 db0 c) d"
    using r1 by (auto simp: upserted_def)
  have b: "\<forall>c\<in>set (processedCustomers now2 cid db1').
            \<exists>d. draftsOf cid (customer_id c) db2 = [d]
                \<and> carriesCopy (freshDraftInput now2 db1' c) d
                \<and> (\<forall>old. draftsOf cid (customer_id c) db1 = [old]
                      \<longrightarrow> d = withFreshCopy (freshDraftInput now2 db1' c) old)"
    using r2 by (auto simp: upserted_def same)
  have c: "length (draftTable db2)
           = length (draftTable db1)
             + length (filter (\<lambda>c. draftsOf cid (customer_id c) db1 = [])
                              (processedCustomers now2 cid db1'))"
    using r2 by (simp add: same mid)
  from a b c r2 show ?thesis by blast
qed

theorem regeneration_updates_drafts_in_place_witness:
  "drafts_unique example_db
   \<and> distinct (map customer_id (customerTable example_db))
   \<and> draftTable later_db = draftTable drafted_db
   \<and> distinct (map customer_id (customerTable later_db))
   \<and> processedCustomers 2000 3 example_db = [alice]
   \<and> processedCustomers 3000 3 later_db = [alice]
   \<and> (\<exists>d. draftsOf 3 (customer_id alice) drafted_db = [d]
          \<and> carriesCopy (freshDraftInput 2000 example_db alice) d)
   \<and> (\<exists>d. draftsOf 3 (customer_id alice) (snd (generateDrafts 3000 3 later_db)) = [d]
          \<and> carriesCopy (freshDraftInput 3000 later_db alice) d
          \<and> (\<forall>old. draftsOf 3 (customer_id alice) drafted_db = [old]
                \<longrightarrow> d = withFreshCopy (freshDraftInput 3000 later_db alice) old))
   \<and> length (draftTable (snd (generateDrafts 3000 3 later_db))) = length (draftTable drafted_db)
   \<and> map draft_subject (draftTable drafted_db) = [''Still thinking about WIDGET-42?'']
   \<and> map draft_subject (draftTable (snd (generateDrafts 3000 3 later_db)))
       = [''Still thinking about GADGET-7?'']"
proof -
  have u: "drafts_unique example_db" by code_simp
  have i: "distinct (map customer_id (customerTable example_db))" by code_simp
  have m: "draftTable later_db = draftTable drafted_db" by (simp add: later_db_def)
  have i': "distinct (map customer_id (customerTable later_db))" by code_simp
  have p1: "processedCustomers 2000 3 example_db = [alice]" by code_simp
  have p2: "processedCustomers 3000 3 later_db = [alice]" by code_simp
  have old: "draftsOf 3 (customer_id alice) drafted_db \<noteq> []" by code_simp
  have s1: "map draft_subject (draftTable drafted_db) = [''Still thinking about WIDGET-42?'']"
    by code_simp
  have s2: "map draft_subject (draftTable (snd (generateDrafts 3000 3 later_db)))
       = [''Still thinking about GADGET-7?'']"
    by code_simp
  note t = regeneration_updates_drafts_in_place
             [OF u i drafted_db_def m i' refl, where ?now2.0 = 3000]
  from t have a: "\<exists>d. draftsOf 3 (customer_id alice) drafted_db = [d]
          \<and> carriesCopy (freshDraftInput 2000 example_db alice) d"
    by (simp add: p1)
  from t have b: "\<exists>d. draftsOf 3 (customer_id alice) (snd (generateDrafts 3000 3 later_db)) = [d]
          \<and> carriesCopy (freshDraftInput 3000 later_db alice) d
          \<and> (\<forall>old. draftsOf 3 (customer_id alice) drafted_db = [old]
                \<longrightarrow> d = withFreshCopy (freshDraftInput 3000 later_db alice) old)"
    by (simp add: p2)
  from t old have c: "length (draftTable (snd (generateDrafts 3000 3 later_db)))
                        = length (draftTable drafted_db)"
    by (simp add: p2)
  from u i m i' p1 p2 a b c s1 s2 show ?thesis by blast
qed

lemma crowded_processed:
  "processedCustomers 2000 200 crowded_db
     = customers (evaluateSegment 2000 (EventTypeInLastDays ''page_view'' 30) crowded_db)"
  by (simp add: processedCustomers_def crowded_db_def page_view_30_valid)

text \<open>
  Claim C1 does not hold of the code for a matching set of more than fifty customers. In
  the database below fifty-one customers have a matching event (the segment's count is
  51); the route processes the fifty of the capped preview list, answers
  \<open>draftedCount: 50\<close> and stores fifty drafts, and the matching customer 50 gets none.
\<close>

theorem draft_generation_stops_at_fifty:
  "customer_matches 2000 (EventTypeInLastDays ''page_view'' 30) crowded_db 50
   \<and> count (evaluateSegment 2000 (EventTypeInLastDays ''page_view'' 30) crowded_db) = 51
   \<and> fst (generateDrafts 2000 200 crowded_db) = HttpOk 200 50
   \<and> length (draftTable (snd (generateDrafts 2000 200 crowded_db))) = 50
   \<and> draftsOf 200 50 (snd (generateDrafts 2000 200 crowded_db)) = []"
proof -
  have m: "customer_matches 2000 (EventTypeInLastDays ''page_view'' 30) crowded_db 50"
    by code_simp
  note c = crowded_count
  have u: "drafts_unique crowded_db"
    by (simp add: drafts_unique_def crowded_db_def)
  have i: "distinct (map customer_id (customerTable crowded_db))"
    by (simp add: crowded_db_def many_customers_def comp_def)
  have n: "length (processedCustomers 2000 200 crowded_db) = 50"
    using arg_cong [OF crowded_processed_ids, of length] by (simp add: crowded_processed)
  have s: "customer_id ` set (processedCustomers 2000 200 crowded_db) = {0..<50}"
    using arg_cong [OF crowded_processed_ids, of set] by (simp add: crowded_processed)
  have f: "find (\<lambda>c. campaign_id c = 200) (campaignTable crowded_db)
             = Some \<lparr> campaign_id = 200, campaign_segmentSnapshot = page_view_30,
                      campaign_status = CampaignDraft \<rparr>"
    by (simp add: crowded_db_def)
  have r: "fst (generateDrafts 2000 200 crowded_db) = HttpOk 200 50"
    using generateDrafts_response [OF f, of "EventTypeInLastDays ''page_view'' 30" 2000]
    by (simp add: page_view_30_valid n)
  have e: "draftsOf 200 x crowded_db = []" for x
    by (simp add: draftsOf_def crowded_db_def)
  note g = generateDrafts_run [OF u i, of 2000 200]
  from g have l: "length (draftTable (snd (generateDrafts 2000 200 crowded_db))) = 50"
    by (simp add: e n) (simp add: crowded_db_def)
  from g s have d: "draftsOf 200 50 (snd (generateDrafts 2000 200 crowded_db)) = []"
    by (simp add: e)
  from m c r l d show ?thesis by simp
qed

subsection \<open>The segment-from-prompt mock\<close>

lemma runs_nonempty: "runs k s \<noteq> []"
  by (induction s) auto















end
